theory Spec2Isabelle
  imports Main
begin

section \<open>Data model (types.ts)\<close>

text \<open>
  JavaScript strings are modelled as \<^typ>\<open>string\<close>, one \<^typ>\<open>char\<close> per code unit; only
  code units below 256 are representable. An optional property (\<^verbatim>\<open>images?\<close>) is an
  \<^typ>\<open>'a option\<close>, \<^term>\<open>None\<close> standing for \<^verbatim>\<open>undefined\<close>. Field names that clash with
  a constant or a keyword of Isabelle carry a suffix: \<open>_m\<close> for Message, \<open>_c\<close> for
  Conversation, \<open>_g\<close> for GroundingSource, \<open>_s\<close> for the component state.
\<close>

datatype Role = USER | MODEL

record GroundingSource =
  uri :: string
  title_g :: string

text \<open>
  \<^verbatim>\<open>type Feedback = 'up' | 'down' | null\<close>; the handlers take only the two tags.
\<close>

datatype Thumb = up | down

datatype Feedback = Tag Thumb | Null

record Message =
  id_m :: string
  role :: Role
  text_m :: string
  sources :: "GroundingSource list option"
  isPlaying :: "bool option"
  images :: "string list option"
  feedback :: "Feedback option"

datatype ChatMode = CHAT | THINKING | MAPS

record Conversation =
  id_c :: string
  title_c :: string
  messages :: "Message list"
  mode :: ChatMode
  context_c :: "string option"

section \<open>Parts sent to the inference service\<close>

text \<open>
  \<^verbatim>\<open>Part\<close> and \<^verbatim>\<open>Content\<close> of the client library, as far as the application builds them:
  a part is \<^verbatim>\<open>{ text }\<close> or \<^verbatim>\<open>{ inlineData: { data, mimeType } }\<close>.
\<close>

datatype Part = is_text: TextPart string | is_inlineData: InlineData (data: string) (mimeType: string)

record Content =
  role_k :: Role
  parts :: "Part list"

subsection \<open>Image strings to inline parts\<close>

text \<open>
  \<^verbatim>\<open>image.split(',')\<close>: the pieces between commas; the empty string gives one empty
  piece.
\<close>

fun split_comma :: "string \<Rightarrow> string list" where
  "split_comma [] = [[]]"
| "split_comma (c # cs) =
     (if c = CHR '','' then [] # split_comma cs
      else (case split_comma cs of
              [] \<Rightarrow> [[c]]
            | p # ps \<Rightarrow> (c # p) # ps))"

text \<open>
  The dot of a JavaScript regular expression (without the \<^verbatim>\<open>s\<close> flag) matches no line
  terminator; of those, line feed and carriage return are representable here.
\<close>

definition lineTerminator :: "char \<Rightarrow> bool" where
  "lineTerminator c = (c = CHR 0x0A \<or> c = CHR 0x0D)"

text \<open>
  \<^verbatim>\<open>(.*?);\<close> matched at the head of a string: the lazy star tries the semicolon first
  and otherwise consumes one character that the dot accepts. The result is the
  captured group.
\<close>

fun lazy_to_semicolon :: "string \<Rightarrow> string option" where
  "lazy_to_semicolon [] = None"
| "lazy_to_semicolon (c # cs) =
     (if c = CHR '';'' then Some []
      else if lineTerminator c then None
      else map_option ((#) c) (lazy_to_semicolon cs))"

text \<open>
  \<^verbatim>\<open>meta.match(/:(.*?);/)?.[1]\<close>: the leftmost colon from which the rest of the pattern
  matches; \<^term>\<open>None\<close> when \<^verbatim>\<open>match\<close> returns \<^verbatim>\<open>null\<close>.
\<close>

fun match_mime :: "string \<Rightarrow> string option" where
  "match_mime [] = None"
| "match_mime (c # cs) =
     (if c = CHR '':'' then
        (case lazy_to_semicolon cs of
           Some g \<Rightarrow> Some g
         | None \<Rightarrow> match_mime cs)
      else match_mime cs)"

text \<open>
  The body of the \<^verbatim>\<open>forEach\<close> callback, the same text at all four places
  (session rebuild, plain send, \<^verbatim>\<open>getThinkingResponse\<close>, \<^verbatim>\<open>getMapsResponse\<close>):
  \<^verbatim>\<open>
  const [meta, base64Data] = image.split(',');
  const mimeType = meta.match(/:(.*?);/)?.[1];
  if (base64Data && mimeType) { parts.push({ inlineData: { data: base64Data, mimeType } }); }
  \<close>
  The destructuring takes the first two pieces; \<^verbatim>\<open>base64Data\<close> is \<^verbatim>\<open>undefined\<close> when
  there is no comma. A string is truthy when it is not empty. The result is the list of
  parts pushed (none or one).
\<close>

definition imagePart :: "string \<Rightarrow> Part list" where
  "imagePart img =
     (case split_comma img of
        [] \<Rightarrow> []
      | meta # rest \<Rightarrow>
          (case (case rest of [] \<Rightarrow> None | b # _ \<Rightarrow> Some b) of
             None \<Rightarrow> []
           | Some base64Data \<Rightarrow>
               (case match_mime meta of
                  None \<Rightarrow> []
                | Some mime \<Rightarrow>
                    if base64Data \<noteq> [] \<and> mime \<noteq> []
                    then [InlineData base64Data mime]
                    else [])))"

text \<open>\<^verbatim>\<open>if (images) { images.forEach(...) }\<close>, as the parts pushed in order.\<close>

definition imageParts :: "string list option \<Rightarrow> Part list" where
  "imageParts imgs = (case imgs of None \<Rightarrow> [] | Some xs \<Rightarrow> concat (map imagePart xs))"

section \<open>Component state (App)\<close>

text \<open>
  \<^verbatim>\<open>GeolocationCoordinates\<close> is only handed on to the service; its two numbers stand
  here as integers.
\<close>

record GeolocationCoordinates =
  latitude :: int
  longitude :: int

text \<open>
  The \<^verbatim>\<open>useState\<close> cells of \<^verbatim>\<open>App\<close> that the conversation logic reads or writes. A
  \<^verbatim>\<open>Chat\<close> session is represented by the history it was created from
  (\<^verbatim>\<open>createChatSession(history)\<close>); \<^term>\<open>None\<close> is \<^verbatim>\<open>null\<close>.
\<close>

record App =
  conversations :: "Conversation list"
  activeConversationId :: "string option"
  chatSession :: "Content list option"
  isLoading :: bool
  context_s :: string
  error_s :: "string option"
  location :: "GeolocationCoordinates option"

definition initialApp :: App where
  "initialApp =
     \<lparr>conversations = [], activeConversationId = None, chatSession = None,
      isLoading = False, context_s = [], error_s = None, location = None\<rparr>"

text \<open>
  \<^verbatim>\<open>conversations.find(c => c.id === activeConversationId)\<close>: the first conversation
  with that id, \<^verbatim>\<open>undefined\<close> when there is none or the id is \<^verbatim>\<open>null\<close>.
\<close>

definition activeConversation :: "App \<Rightarrow> Conversation option" where
  "activeConversation s =
     (case activeConversationId s of
        None \<Rightarrow> None
      | Some a \<Rightarrow> find (\<lambda>c. id_c c = a) (conversations s))"

text \<open>\<^verbatim>\<open>!activeConversationId\<close>: \<^verbatim>\<open>null\<close> and the empty string are falsy.\<close>

definition noId :: "string option \<Rightarrow> bool" where
  "noId a = (a = None \<or> a = Some [])"

text \<open>\<^verbatim>\<open>findIndex\<close>, with \<^term>\<open>None\<close> for \<^verbatim>\<open>-1\<close>.\<close>

fun findIndex :: "('a \<Rightarrow> bool) \<Rightarrow> 'a list \<Rightarrow> nat option" where
  "findIndex P [] = None"
| "findIndex P (x # xs) = (if P x then Some 0 else map_option Suc (findIndex P xs))"

text \<open>
  The greeting is a module constant whose id is drawn once
  (\<^verbatim>\<open>crypto.randomUUID()\<close>); the id is a parameter \<open>gid\<close> here, as is every other
  freshly drawn id.
\<close>

definition initialBotMessage :: "string \<Rightarrow> Message" where
  "initialBotMessage gid =
     \<lparr>id_m = gid, role = MODEL,
      text_m = ''Hello! I'' @ [CHR 0x27] @ ''m a multi-modal AI assistant. Choose a mode, ask me anything, or upload an image to start.'',
      sources = None, isPlaying = None, images = None, feedback = None\<rparr>"

definition newConversation :: "string \<Rightarrow> string \<Rightarrow> Conversation" where
  "newConversation gid nid =
     \<lparr>id_c = nid, title_c = ''New Chat'', messages = [initialBotMessage gid],
      mode = CHAT, context_c = Some []\<rparr>"

section \<open>Handlers\<close>

definition handleNewChat :: "string \<Rightarrow> string \<Rightarrow> App \<Rightarrow> App" where
  "handleNewChat gid nid s =
     s\<lparr>conversations := newConversation gid nid # conversations s,
       activeConversationId := Some nid\<rparr>"

definition handleSelectConversation :: "string \<Rightarrow> App \<Rightarrow> App" where
  "handleSelectConversation i s = s\<lparr>activeConversationId := Some i\<rparr>"

definition handleRenameConversation :: "string \<Rightarrow> string \<Rightarrow> App \<Rightarrow> App" where
  "handleRenameConversation i newTitle s =
     s\<lparr>conversations :=
         map (\<lambda>c. if id_c c = i then c\<lparr>title_c := newTitle\<rparr> else c) (conversations s)\<rparr>"

text \<open>
  \<^verbatim>\<open>handleDeleteConversation\<close>. \<^verbatim>\<open>Math.max(0, index - 1)\<close> is computed on integers. In
  the last branch \<^verbatim>\<open>handleNewChat()\<close> prepends to the list that is current
  (\<^verbatim>\<open>prev => [newConversation, ...prev]\<close>) and the \<^verbatim>\<open>return\<close> skips
  \<^verbatim>\<open>setConversations(newConversations)\<close>.
\<close>

definition handleDeleteConversation :: "string \<Rightarrow> string \<Rightarrow> string \<Rightarrow> App \<Rightarrow> App" where
  "handleDeleteConversation gid nid idToDelete s =
     (case findIndex (\<lambda>c. id_c c = idToDelete) (conversations s) of
        None \<Rightarrow> s
      | Some index \<Rightarrow>
          (let newConversations = filter (\<lambda>c. id_c c \<noteq> idToDelete) (conversations s) in
           if activeConversationId s = Some idToDelete then
             (if length newConversations > 0 then
                (let newActiveIndex = nat (max 0 (int index - 1)) in
                 s\<lparr>activeConversationId := Some (id_c (newConversations ! newActiveIndex)),
                   conversations := newConversations\<rparr>)
              else handleNewChat gid nid s)
           else s\<lparr>conversations := newConversations\<rparr>))"

definition handleClearAllConversations :: "string \<Rightarrow> string \<Rightarrow> App \<Rightarrow> App" where
  "handleClearAllConversations gid nid s =
     s\<lparr>conversations := [newConversation gid nid], activeConversationId := Some nid\<rparr>"

definition handleSetContext :: "string \<Rightarrow> App \<Rightarrow> App" where
  "handleSetContext newContext s =
     (let s1 = s\<lparr>context_s := newContext\<rparr> in
      if noId (activeConversationId s) then s1
      else s1\<lparr>conversations :=
             map (\<lambda>c. if Some (id_c c) = activeConversationId s
                       then c\<lparr>context_c := Some newContext\<rparr> else c)
                 (conversations s)\<rparr>)"

definition handleSetMode :: "ChatMode \<Rightarrow> App \<Rightarrow> App" where
  "handleSetMode m s =
     (if noId (activeConversationId s) then s
      else s\<lparr>conversations :=
             map (\<lambda>c. if Some (id_c c) = activeConversationId s then c\<lparr>mode := m\<rparr> else c)
                 (conversations s)\<rparr>)"

text \<open>
  \<^verbatim>\<open>handleFeedback\<close>: \<^verbatim>\<open>m.feedback === feedback ? null : feedback\<close> on every message
  with the id, in every conversation with the active id.
\<close>

definition toggleFeedback :: "Thumb \<Rightarrow> Message \<Rightarrow> Message" where
  "toggleFeedback t m =
     m\<lparr>feedback := Some (if feedback m = Some (Tag t) then Null else Tag t)\<rparr>"

definition handleFeedback :: "string \<Rightarrow> Thumb \<Rightarrow> App \<Rightarrow> App" where
  "handleFeedback messageId t s =
     (if noId (activeConversationId s) then s
      else s\<lparr>conversations :=
             map (\<lambda>c. if Some (id_c c) = activeConversationId s
                       then c\<lparr>messages :=
                              map (\<lambda>m. if id_m m = messageId then toggleFeedback t m else m)
                                  (messages c)\<rparr>
                       else c)
                 (conversations s)\<rparr>)"

text \<open>
  \<^verbatim>\<open>handleEditMessage\<close> returns the new state and the call it schedules with
  \<^verbatim>\<open>setTimeout(() => handleSendMessage(newText, originalImages), 0)\<close>: \<^term>\<open>None\<close> on every
  early return. The indexed reads are in range, the indices coming from \<^verbatim>\<open>findIndex\<close>.
\<close>

definition handleEditMessage ::
  "string \<Rightarrow> string \<Rightarrow> App \<Rightarrow> App \<times> (string \<times> string list option) option" where
  "handleEditMessage messageId newText s =
     (if noId (activeConversationId s) \<or> isLoading s then (s, None)
      else
        (case findIndex (\<lambda>c. Some (id_c c) = activeConversationId s) (conversations s) of
           None \<Rightarrow> (s, None)
         | Some conversationIndex \<Rightarrow>
             (let conversation = conversations s ! conversationIndex in
              case findIndex (\<lambda>m. id_m m = messageId) (messages conversation) of
                None \<Rightarrow> (s, None)
              | Some messageIndex \<Rightarrow>
                  if messageIndex \<le> 0 \<or> role (messages conversation ! messageIndex) \<noteq> USER
                  then (s, None)
                  else
                    (let originalMessage = messages conversation ! messageIndex;
                         originalImages = images originalMessage;
                         truncatedMessages = take messageIndex (messages conversation);
                         updatedConversations =
                           (conversations s)
                             [conversationIndex := conversation\<lparr>messages := truncatedMessages\<rparr>]
                     in (s\<lparr>conversations := updatedConversations\<rparr>,
                         Some (newText, originalImages))))))"

section \<open>The inference service (services/geminiService.ts)\<close>

text \<open>
  The remote calls are parameters: each either rejects with an error or resolves. An
  error is an object whose \<^verbatim>\<open>message\<close> may be missing. A grounding chunk is read only
  through \<^verbatim>\<open>chunk.maps?.uri\<close> and \<^verbatim>\<open>chunk.maps.title\<close>.
\<close>

datatype JsError = JsError (message: "string option")

record MapsChunk =
  uri_k :: "string option"
  title_k :: "string option"

record GroundingChunk =
  maps :: "MapsChunk option"

record Service =
  generateContent_thinking :: "Part list \<Rightarrow> JsError + string"
  generateContent_maps ::
    "Part list \<Rightarrow> GeolocationCoordinates option \<Rightarrow> JsError + string \<times> GroundingChunk list option"
  chat_sendMessage :: "Content list \<Rightarrow> Part list \<Rightarrow> JsError + string"

definition nl :: string where
  "nl = [CHR 0x0A]"

text \<open>\<^verbatim>\<open>userParts\<close> of \<^verbatim>\<open>getThinkingResponse\<close>: the text part first, then the images.\<close>

definition getThinkingResponse_userParts :: "string \<Rightarrow> string \<Rightarrow> string list option \<Rightarrow> Part list" where
  "getThinkingResponse_userParts prompt ctx imgs =
     (let fullPrompt = (if ctx \<noteq> [] then ctx @ nl @ nl @ ''Question: '' @ prompt else prompt)
      in [TextPart fullPrompt] @ imageParts imgs)"

definition getThinkingResponse ::
  "Service \<Rightarrow> string \<Rightarrow> string \<Rightarrow> string list option \<Rightarrow> JsError + string" where
  "getThinkingResponse svc prompt ctx imgs =
     generateContent_thinking svc (getThinkingResponse_userParts prompt ctx imgs)"

text \<open>\<^verbatim>\<open>userParts\<close> of \<^verbatim>\<open>getMapsResponse\<close>.\<close>

definition getMapsResponse_userParts :: "string \<Rightarrow> string \<Rightarrow> string list option \<Rightarrow> Part list" where
  "getMapsResponse_userParts prompt ctx imgs =
     (let fullPrompt = (if ctx \<noteq> [] then ctx @ nl @ nl @ ''Question: '' @ prompt else prompt)
      in [TextPart fullPrompt] @ imageParts imgs)"

text \<open>
  \<^verbatim>\<open>groundingChunks?.filter(chunk => chunk.maps?.uri).map(...) ?? []\<close>; a missing or
  empty title becomes the placeholder.
\<close>

definition chunkUri :: "GroundingChunk \<Rightarrow> string option" where
  "chunkUri k = (case maps k of None \<Rightarrow> None | Some m \<Rightarrow> uri_k m)"

definition chunkSource :: "GroundingChunk \<Rightarrow> GroundingSource list" where
  "chunkSource k =
     (case maps k of
        None \<Rightarrow> []
      | Some m \<Rightarrow>
          (case uri_k m of
             None \<Rightarrow> []
           | Some u \<Rightarrow>
               if u = [] then []
               else [\<lparr>uri = u,
                      title_g = (case title_k m of
                                   None \<Rightarrow> ''View on Google Maps''
                                 | Some t \<Rightarrow> if t = [] then ''View on Google Maps'' else t)\<rparr>]))"

definition groundingSources :: "GroundingChunk list option \<Rightarrow> GroundingSource list" where
  "groundingSources chunks =
     (case chunks of None \<Rightarrow> [] | Some ks \<Rightarrow> concat (map chunkSource ks))"

definition getMapsResponse ::
  "Service \<Rightarrow> string \<Rightarrow> string \<Rightarrow> GeolocationCoordinates option \<Rightarrow> string list option
     \<Rightarrow> JsError + string \<times> GroundingSource list option" where
  "getMapsResponse svc prompt ctx loc imgs =
     (case generateContent_maps svc (getMapsResponse_userParts prompt ctx imgs) loc of
        Inl e \<Rightarrow> Inl e
      | Inr (t, chunks) \<Rightarrow> Inr (t, Some (groundingSources chunks)))"

section \<open>handleSendMessage\<close>

text \<open>
  The handler is a closure over one render: it reads \<^verbatim>\<open>isLoading\<close>, \<^verbatim>\<open>context\<close>,
  \<^verbatim>\<open>location\<close>, \<^verbatim>\<open>chatSession\<close>, \<^verbatim>\<open>activeConversationId\<close> and \<^verbatim>\<open>activeConversation\<close>
  from the state \<open>r\<close> it was created in, while its functional updates
  (\<^verbatim>\<open>setConversations(prev => ...)\<close>) act on the state \<open>s\<close> that is current when they are
  applied. For a send started from the input box the two are the same state.
\<close>

text \<open>The guard of the first line.\<close>

definition sendBlocked :: "App \<Rightarrow> string \<Rightarrow> string list option \<Rightarrow> bool" where
  "sendBlocked r prompt imgs =
     ((prompt = [] \<and> (imgs = None \<or> imgs = Some []))
      \<or> isLoading r \<or> noId (activeConversationId r) \<or> activeConversation r = None)"

definition userMessage :: "string \<Rightarrow> string \<Rightarrow> string list option \<Rightarrow> Message" where
  "userMessage uid prompt imgs =
     \<lparr>id_m = uid, role = USER, text_m = prompt, sources = None, isPlaying = None,
      images = imgs, feedback = None\<rparr>"

text \<open>
  The synchronous part after the guard: \<^verbatim>\<open>setIsLoading(true)\<close>, \<^verbatim>\<open>setError(null)\<close> and
  the optimistic append with the provisional title.
\<close>

definition sendOptimistic :: "App \<Rightarrow> string \<Rightarrow> string list option \<Rightarrow> string \<Rightarrow> App \<Rightarrow> App" where
  "sendOptimistic r prompt imgs uid s =
     (let prev = conversations s;
          isNew = (case find (\<lambda>c. Some (id_c c) = activeConversationId r) prev of
                     None \<Rightarrow> False
                   | Some c \<Rightarrow> length (messages c) = 1);
          titlePrompt = (if prompt = [] then ''Image Upload'' else prompt)
      in s\<lparr>isLoading := True, error_s := None,
           conversations :=
             map (\<lambda>c. if Some (id_c c) = activeConversationId r
                       then c\<lparr>messages := messages c @ [userMessage uid prompt imgs],
                              title_c := (if isNew then take 40 titlePrompt @ ''...''
                                          else title_c c)\<rparr>
                       else c)
                 prev\<rparr>)"

text \<open>
  The background title request: its argument when it is issued, and the update its
  resolution applies. \<^verbatim>\<open>generateTitle\<close> never rejects.
\<close>

definition titleRequest :: "App \<Rightarrow> string \<Rightarrow> string option" where
  "titleRequest r prompt =
     (case activeConversation r of
        None \<Rightarrow> None
      | Some c \<Rightarrow>
          if length (messages c) = 1
          then Some (if prompt = [] then ''Analyze these images'' else prompt)
          else None)"

definition titleResolved :: "App \<Rightarrow> string \<Rightarrow> App \<Rightarrow> App" where
  "titleResolved r t s =
     s\<lparr>conversations :=
         map (\<lambda>c. if Some (id_c c) = activeConversationId r then c\<lparr>title_c := t\<rparr> else c)
             (conversations s)\<rparr>"

text \<open>
  The body of the \<^verbatim>\<open>try\<close> up to the response: \<^term>\<open>Inl\<close> is what the \<^verbatim>\<open>catch\<close> receives,
  thrown here or by the awaited call; \<^term>\<open>Inr\<close> is \<^verbatim>\<open>(responseText, responseSources)\<close>.
  The mode is that of the closure's active conversation.
\<close>

definition fullContext :: "string \<Rightarrow> string \<Rightarrow> string" where
  "fullContext ctx prompt =
     (if ctx \<noteq> []
      then ''CONTEXT:'' @ nl @ ctx @ nl @ nl @ ''---'' @ nl @ nl @ ''PROMPT:'' @ nl @ prompt
      else prompt)"

definition chatUserParts :: "string \<Rightarrow> string \<Rightarrow> string list option \<Rightarrow> Part list" where
  "chatUserParts ctx prompt imgs =
     imageParts imgs @
     (if fullContext ctx prompt \<noteq> [] then [TextPart (fullContext ctx prompt)] else [])"

definition dispatch ::
  "Service \<Rightarrow> App \<Rightarrow> ChatMode \<Rightarrow> string \<Rightarrow> string list option
     \<Rightarrow> JsError + string \<times> GroundingSource list option" where
  "dispatch svc r m prompt imgs =
     (case m of
        THINKING \<Rightarrow>
          (case getThinkingResponse svc prompt (context_s r) imgs of
             Inl e \<Rightarrow> Inl e
           | Inr t \<Rightarrow> Inr (t, None))
      | MAPS \<Rightarrow>
          (if location r = None
           then Inl (JsError (Some ''Location not available. Please allow location access.''))
           else getMapsResponse svc prompt (context_s r) (location r) imgs)
      | CHAT \<Rightarrow>
          (case chatSession r of
             None \<Rightarrow> Inl (JsError (Some ''Chat session not initialized.''))
           | Some h \<Rightarrow>
               (case chat_sendMessage svc h (chatUserParts (context_s r) prompt imgs) of
                  Inl e \<Rightarrow> Inl e
                | Inr t \<Rightarrow> Inr (t, None))))"

text \<open>
  \<^verbatim>\<open>`Error: ${err.message || 'An unexpected error occurred.'}`\<close>
\<close>

definition formatError :: "JsError \<Rightarrow> string" where
  "formatError e =
     ''Error: '' @
     (case message e of
        None \<Rightarrow> ''An unexpected error occurred.''
      | Some m \<Rightarrow> if m = [] then ''An unexpected error occurred.'' else m)"

definition modelMessage :: "string \<Rightarrow> string \<Rightarrow> GroundingSource list option \<Rightarrow> Message" where
  "modelMessage mid t srcs =
     \<lparr>id_m = mid, role = MODEL, text_m = t, sources = srcs, isPlaying = None,
      images = None, feedback = None\<rparr>"

definition appendToConversation :: "string option \<Rightarrow> Message \<Rightarrow> Conversation list \<Rightarrow> Conversation list" where
  "appendToConversation a msg cs =
     map (\<lambda>c. if Some (id_c c) = a then c\<lparr>messages := messages c @ [msg]\<rparr> else c) cs"

text \<open>
  What follows the awaited call, applied to the state \<open>s\<close> current at that time: the
  model message on success, the \<^verbatim>\<open>catch\<close> block on failure, and the \<^verbatim>\<open>finally\<close> block.
\<close>

definition sendSettle ::
  "App \<Rightarrow> JsError + string \<times> GroundingSource list option \<Rightarrow> string \<Rightarrow> App \<Rightarrow> App" where
  "sendSettle r outcome mid s =
     (case outcome of
        Inr (responseText, responseSources) \<Rightarrow>
          s\<lparr>conversations :=
              appendToConversation (activeConversationId r)
                (modelMessage mid responseText responseSources) (conversations s),
            isLoading := False\<rparr>
      | Inl err \<Rightarrow>
          (let errorMessage = formatError err in
           s\<lparr>error_s := Some errorMessage,
             conversations :=
               appendToConversation (activeConversationId r)
                 (modelMessage mid errorMessage None) (conversations s),
             isLoading := False\<rparr>))"

text \<open>
  One call of \<^verbatim>\<open>handleSendMessage\<close> run to its end with nothing else in between, from
  the closure \<open>r\<close> on the state \<open>s\<close>; \<open>uid\<close> and \<open>mid\<close> are the ids drawn for the user
  message and for the model (or error) message.
\<close>

definition handleSendMessage ::
  "Service \<Rightarrow> App \<Rightarrow> string \<Rightarrow> string list option \<Rightarrow> string \<Rightarrow> string \<Rightarrow> App \<Rightarrow> App" where
  "handleSendMessage svc r prompt imgs uid mid s =
     (if sendBlocked r prompt imgs then s
      else
        (case activeConversation r of
           None \<Rightarrow> s
         | Some c \<Rightarrow>
             sendSettle r (dispatch svc r (mode c) prompt imgs) mid
               (sendOptimistic r prompt imgs uid s)))"

section \<open>Effects\<close>

subsection \<open>Session binder\<close>

text \<open>
  One entry of the history: the inline parts of the images, then the text part when the
  text is not empty (\<^verbatim>\<open>if (msg.text)\<close>), under the message's role.
\<close>

definition messageContent :: "Message \<Rightarrow> Content" where
  "messageContent msg =
     \<lparr>role_k = role msg,
      parts = imageParts (images msg) @
              (if text_m msg \<noteq> [] then [TextPart (text_m msg)] else [])\<rparr>"

definition sessionHistory :: "Conversation \<Rightarrow> Content list" where
  "sessionHistory c = map messageContent (drop 1 (messages c))"

text \<open>The body of the effect on \<^verbatim>\<open>[activeConversation]\<close>.\<close>

definition bindSession :: "App \<Rightarrow> App" where
  "bindSession s =
     (case activeConversation s of
        None \<Rightarrow> s
      | Some c \<Rightarrow>
          s\<lparr>context_s := (case context_c c of None \<Rightarrow> [] | Some x \<Rightarrow> x),
            chatSession := (if mode c = CHAT then Some (sessionHistory c) else None)\<rparr>)"

text \<open>
  The effect runs after a render in which \<^verbatim>\<open>activeConversation\<close> differs from that of
  the render before (\<open>old\<close>). React compares references; the model compares values. A
  new reference with an equal value makes React run the body again; for \<^verbatim>\<open>chatSession\<close>
  that stores the value the last run stored, since no handler writes that cell. For
  \<^verbatim>\<open>context\<close> the re-run and the model can differ only after \<^verbatim>\<open>handleSetContext\<close> has
  returned early on a falsy active id while a conversation with that id exists, that
  is, when the active id is the empty string; the identifiers drawn by the code are
  never empty.
\<close>

definition sessionEffect :: "App \<Rightarrow> App \<Rightarrow> App" where
  "sessionEffect old s =
     (if activeConversation s = activeConversation old then s else bindSession s)"

subsection \<open>Persistence\<close>

text \<open>
  The value kept under the key \<^verbatim>\<open>chatHistory\<close> is a string written by
  \<^verbatim>\<open>JSON.stringify\<close> and read by \<^verbatim>\<open>JSON.parse\<close>. The model keeps the document the string
  denotes, or the fact that it does not parse; the text layer of the two built-ins is
  not modelled.
\<close>

datatype json =
    JNull
  | JBool bool
  | JNum int
  | JStr string
  | JArr "json list"
  | JObj "(string \<times> json) list"

datatype Item = Unparsable | Parsed json

text \<open>
  \<^verbatim>\<open>JSON.stringify\<close> on the types of types.ts: a property whose value is \<^verbatim>\<open>undefined\<close> is
  left out, \<^verbatim>\<open>null\<close> is written. The order of the properties of an object depends on
  how the object was built; the readers below go by name.
\<close>

definition optProp :: "string \<Rightarrow> ('a \<Rightarrow> json) \<Rightarrow> 'a option \<Rightarrow> (string \<times> json) list" where
  "optProp k f v = (case v of None \<Rightarrow> [] | Some x \<Rightarrow> [(k, f x)])"

definition json_of_Role :: "Role \<Rightarrow> json" where
  "json_of_Role r = JStr (case r of USER \<Rightarrow> ''user'' | MODEL \<Rightarrow> ''model'')"

definition json_of_ChatMode :: "ChatMode \<Rightarrow> json" where
  "json_of_ChatMode m =
     JStr (case m of CHAT \<Rightarrow> ''CHAT'' | THINKING \<Rightarrow> ''THINKING'' | MAPS \<Rightarrow> ''MAPS'')"

definition json_of_Feedback :: "Feedback \<Rightarrow> json" where
  "json_of_Feedback f =
     (case f of Null \<Rightarrow> JNull | Tag t \<Rightarrow> JStr (case t of up \<Rightarrow> ''up'' | down \<Rightarrow> ''down''))"

definition json_of_GroundingSource :: "GroundingSource \<Rightarrow> json" where
  "json_of_GroundingSource g = JObj [(''uri'', JStr (uri g)), (''title'', JStr (title_g g))]"

definition json_of_Message :: "Message \<Rightarrow> json" where
  "json_of_Message m =
     JObj ([(''id'', JStr (id_m m)), (''role'', json_of_Role (role m)),
            (''text'', JStr (text_m m))]
           @ optProp ''sources'' (\<lambda>gs. JArr (map json_of_GroundingSource gs)) (sources m)
           @ optProp ''isPlaying'' JBool (isPlaying m)
           @ optProp ''images'' (\<lambda>xs. JArr (map JStr xs)) (images m)
           @ optProp ''feedback'' json_of_Feedback (feedback m))"

definition json_of_Conversation :: "Conversation \<Rightarrow> json" where
  "json_of_Conversation c =
     JObj ([(''id'', JStr (id_c c)), (''title'', JStr (title_c c)),
            (''messages'', JArr (map json_of_Message (messages c))),
            (''mode'', json_of_ChatMode (mode c))]
           @ optProp ''context'' JStr (context_c c))"

text \<open>
  \<^verbatim>\<open>JSON.parse(storedHistory) as Conversation[]\<close>: the cast checks nothing. The readers
  below say which documents are values of the TypeScript types and which value each is;
  \<^term>\<open>None\<close> marks a document that is not one (the typed state has no image of it).
\<close>

definition getProp :: "string \<Rightarrow> json \<Rightarrow> json option" where
  "getProp k j = (case j of JObj kvs \<Rightarrow> map_of kvs k | _ \<Rightarrow> None)"

definition str_of :: "json \<Rightarrow> string option" where
  "str_of j = (case j of JStr x \<Rightarrow> Some x | _ \<Rightarrow> None)"

definition bool_of :: "json \<Rightarrow> bool option" where
  "bool_of j = (case j of JBool b \<Rightarrow> Some b | _ \<Rightarrow> None)"

definition arr_of :: "(json \<Rightarrow> 'a option) \<Rightarrow> json \<Rightarrow> 'a list option" where
  "arr_of f j = (case j of JArr xs \<Rightarrow> those (map f xs) | _ \<Rightarrow> None)"

definition required :: "(json \<Rightarrow> 'a option) \<Rightarrow> json option \<Rightarrow> 'a option" where
  "required f v = (case v of None \<Rightarrow> None | Some j \<Rightarrow> f j)"

definition optional :: "(json \<Rightarrow> 'a option) \<Rightarrow> json option \<Rightarrow> 'a option option" where
  "optional f v = (case v of None \<Rightarrow> Some None | Some j \<Rightarrow> map_option Some (f j))"

definition Role_of_json :: "json \<Rightarrow> Role option" where
  "Role_of_json j =
     (if j = JStr ''user'' then Some USER
      else if j = JStr ''model'' then Some MODEL else None)"

definition ChatMode_of_json :: "json \<Rightarrow> ChatMode option" where
  "ChatMode_of_json j =
     (if j = JStr ''CHAT'' then Some CHAT
      else if j = JStr ''THINKING'' then Some THINKING
      else if j = JStr ''MAPS'' then Some MAPS else None)"

definition Feedback_of_json :: "json \<Rightarrow> Feedback option" where
  "Feedback_of_json j =
     (if j = JNull then Some Null
      else if j = JStr ''up'' then Some (Tag up)
      else if j = JStr ''down'' then Some (Tag down) else None)"

definition GroundingSource_of_json :: "json \<Rightarrow> GroundingSource option" where
  "GroundingSource_of_json j =
     (case (required str_of (getProp ''uri'' j), required str_of (getProp ''title'' j)) of
        (Some u, Some t) \<Rightarrow> Some \<lparr>uri = u, title_g = t\<rparr>
      | _ \<Rightarrow> None)"

definition Message_of_json :: "json \<Rightarrow> Message option" where
  "Message_of_json j =
     (case (required str_of (getProp ''id'' j), required Role_of_json (getProp ''role'' j),
            required str_of (getProp ''text'' j),
            optional (arr_of GroundingSource_of_json) (getProp ''sources'' j),
            optional bool_of (getProp ''isPlaying'' j),
            optional (arr_of str_of) (getProp ''images'' j),
            optional Feedback_of_json (getProp ''feedback'' j)) of
        (Some i, Some r, Some t, Some srcs, Some pl, Some imgs, Some fb) \<Rightarrow>
          Some \<lparr>id_m = i, role = r, text_m = t, sources = srcs, isPlaying = pl,
                images = imgs, feedback = fb\<rparr>
      | _ \<Rightarrow> None)"

definition Conversation_of_json :: "json \<Rightarrow> Conversation option" where
  "Conversation_of_json j =
     (case (required str_of (getProp ''id'' j), required str_of (getProp ''title'' j),
            required (arr_of Message_of_json) (getProp ''messages'' j),
            required ChatMode_of_json (getProp ''mode'' j),
            optional str_of (getProp ''context'' j)) of
        (Some i, Some t, Some ms, Some m, Some cx) \<Rightarrow>
          Some \<lparr>id_c = i, title_c = t, messages = ms, mode = m, context_c = cx\<rparr>
      | _ \<Rightarrow> None)"

text \<open>
  The effect on \<^verbatim>\<open>[conversations]\<close>: the new value of the key, \<^term>\<open>None\<close> after
  \<^verbatim>\<open>removeItem\<close>.
\<close>

definition saveHistory :: "Conversation list \<Rightarrow> Item option" where
  "saveHistory cs =
     (if length cs > 0 then Some (Parsed (JArr (map json_of_Conversation cs))) else None)"

text \<open>
  The effect run once at startup, on the value of the key (\<^term>\<open>None\<close> when
  \<^verbatim>\<open>getItem\<close> gives \<^verbatim>\<open>null\<close>). A string that does not parse throws into the \<^verbatim>\<open>catch\<close>,
  after which \<^verbatim>\<open>handleNewChat()\<close> runs. The outer \<^term>\<open>None\<close> is the case of an array
  that is not a \<^verbatim>\<open>Conversation[]\<close>.
\<close>

definition loadHistory :: "string \<Rightarrow> string \<Rightarrow> Item option \<Rightarrow> App \<Rightarrow> App option" where
  "loadHistory gid nid storedHistory s =
     (case storedHistory of
        None \<Rightarrow> Some (handleNewChat gid nid s)
      | Some Unparsable \<Rightarrow> Some (handleNewChat gid nid s)
      | Some (Parsed j) \<Rightarrow>
          (case j of
             JArr xs \<Rightarrow>
               (if length xs > 0 then
                  (case those (map Conversation_of_json xs) of
                     None \<Rightarrow> None
                   | Some parsedHistory \<Rightarrow>
                       Some (s\<lparr>conversations := parsedHistory,
                               activeConversationId := Some (id_c (parsedHistory ! 0))\<rparr>))
                else Some (handleNewChat gid nid s))
           | _ \<Rightarrow> Some (handleNewChat gid nid s)))"

section \<open>Events and reachable states\<close>

text \<open>
  The three \<^verbatim>\<open>setConversations\<close> calls of \<^verbatim>\<open>handlePlayAudio\<close> set the playback flag of
  the messages with the id, in the conversations with the closure's active id.
\<close>

definition setPlaying :: "App \<Rightarrow> string \<Rightarrow> bool \<Rightarrow> App \<Rightarrow> App" where
  "setPlaying r messageId flag s =
     s\<lparr>conversations :=
         map (\<lambda>c. if Some (id_c c) = activeConversationId r
                   then c\<lparr>messages :=
                          map (\<lambda>m. if id_m m = messageId then m\<lparr>isPlaying := Some flag\<rparr> else m)
                              (messages c)\<rparr>
                   else c)
             (conversations s)\<rparr>"

text \<open>
  Everything that changes the state: the user's actions, the two halves of a send, the
  resolution of a title request, the playback flag, the geolocation callbacks, the
  other calls of \<^verbatim>\<open>setError\<close> (speech, geolocation and export failures) and the error
  timer. An asynchronous continuation carries the closure it runs in. \<open>gid\<close> is the id
  of the greeting. The theme, the voice and the sidebar flag are not part of the state
  modelled here.
\<close>

datatype Event =
    NewChat string
  | SelectConversation string
  | RenameConversation string string
  | DeleteConversation string string
  | ClearAllConversations string
  | SetContext string
  | SetMode ChatMode
  | GiveFeedback string Thumb
  | EditMessage string string
  | SendStart App string "string list option" string
  | SendSettled App "JsError + string \<times> GroundingSource list option" string
  | TitleResolved App string
  | AudioFlag App string bool
  | LocationGranted GeolocationCoordinates
  | ErrorRaised string
  | ErrorExpired

fun handler :: "string \<Rightarrow> Event \<Rightarrow> App \<Rightarrow> App" where
  "handler gid (NewChat nid) s = handleNewChat gid nid s"
| "handler gid (SelectConversation i) s = handleSelectConversation i s"
| "handler gid (RenameConversation i t) s = handleRenameConversation i t s"
| "handler gid (DeleteConversation nid i) s = handleDeleteConversation gid nid i s"
| "handler gid (ClearAllConversations nid) s = handleClearAllConversations gid nid s"
| "handler gid (SetContext x) s = handleSetContext x s"
| "handler gid (SetMode m) s = handleSetMode m s"
| "handler gid (GiveFeedback i t) s = handleFeedback i t s"
| "handler gid (EditMessage i t) s = fst (handleEditMessage i t s)"
| "handler gid (SendStart r prompt imgs uid) s =
     (if sendBlocked r prompt imgs then s else sendOptimistic r prompt imgs uid s)"
| "handler gid (SendSettled r outcome mid) s = sendSettle r outcome mid s"
| "handler gid (TitleResolved r t) s = titleResolved r t s"
| "handler gid (AudioFlag r i flag) s = setPlaying r i flag s"
| "handler gid (LocationGranted loc) s = s\<lparr>location := Some loc, error_s := None\<rparr>"
| "handler gid (ErrorRaised e) s = s\<lparr>error_s := Some e\<rparr>"
| "handler gid ErrorExpired s = s\<lparr>error_s := None\<rparr>"

text \<open>An event followed by the session effect of the render it causes.\<close>

definition step :: "string \<Rightarrow> Event \<Rightarrow> App \<Rightarrow> App" where
  "step gid ev s = sessionEffect s (handler gid ev s)"

text \<open>Startup on a given value of the key, with the effects of the first renders.\<close>

definition mount :: "string \<Rightarrow> string \<Rightarrow> Item option \<Rightarrow> App option" where
  "mount gid nid storedHistory =
     map_option (sessionEffect initialApp) (loadHistory gid nid storedHistory initialApp)"

text \<open>
  The states reachable from a startup. Closures and the order of continuations are not
  constrained, so the set contains every state the running application can be in.
\<close>

inductive reachable :: "string \<Rightarrow> App \<Rightarrow> bool" for gid :: string where
  mounted: "mount gid nid storedHistory = Some s \<Longrightarrow> reachable gid s"
| stepped: "reachable gid s \<Longrightarrow> reachable gid (step gid ev s)"

section \<open>Example states\<close>

text \<open>
  A service whose extended-reasoning call rejects without a message, whose grounded call
  rejects with one, and whose session call resolves.
\<close>

definition silentService :: Service where
  "silentService =
     \<lparr>generateContent_thinking = (\<lambda>ps. Inl (JsError None)),
      generateContent_maps = (\<lambda>ps loc. Inl (JsError (Some ''quota''))),
      chat_sendMessage = (\<lambda>h ps. Inr ''ok'')\<rparr>"

text \<open>The state after a first start: one conversation \<open>a\<close>, active.\<close>

definition oneChat :: App where
  "oneChat = handleNewChat ''g'' ''a'' initialApp"

text \<open>The same conversation switched to the extended-reasoning mode.\<close>

definition thinkingChat :: App where
  "thinkingChat = handleSetMode THINKING oneChat"

text \<open>A second conversation \<open>b\<close> started after \<open>a\<close>: the list is \<open>[b, a]\<close>, \<open>b\<close> active.\<close>

definition twoChats :: App where
  "twoChats = handleNewChat ''g'' ''b'' oneChat"

text \<open>The greeting of the single conversation marked \<open>up\<close>.\<close>

definition likedGreeting :: App where
  "likedGreeting = handleFeedback ''g'' up oneChat"

text \<open>
  A conversation of five messages: the greeting, a user message with one image, a model
  answer, a second user message and its answer.
\<close>

definition pngImage :: string where
  "pngImage = ''data:image/png;base64,AAAA''"

definition dialogue :: Conversation where
  "dialogue =
     \<lparr>id_c = ''a'', title_c = ''Paris'',
      messages =
        [initialBotMessage ''g'',
         userMessage ''u1'' ''Tell me about Paris'' (Some [pngImage]),
         modelMessage ''m1'' ''Paris is the capital of France.'' None,
         userMessage ''u2'' ''And Rome?'' None,
         modelMessage ''m2'' ''Rome is the capital of Italy.'' None],
      mode = THINKING, context_c = Some []\<rparr>"

definition dialogueChat :: App where
  "dialogueChat = oneChat\<lparr>conversations := [dialogue]\<rparr>"

text \<open>
  The state after a first start with the session effect run (\<open>startChat\<close>); a second
  conversation started and the older one selected again (\<open>pickedOlder\<close>); an image sent
  with an empty prompt (\<open>imageOnlyChat\<close>); an id selected that no conversation has
  (\<open>strayPointer\<close>).
\<close>

definition startChat :: App where
  "startChat = sessionEffect initialApp (handleNewChat ''g'' ''a'' initialApp)"

definition pickedOlder :: App where
  "pickedOlder = step ''g'' (SelectConversation ''a'') (step ''g'' (NewChat ''b'') startChat)"

definition imageOnlyChat :: App where
  "imageOnlyChat = step ''g'' (SendStart startChat [] (Some [pngImage]) ''u1'') startChat"

definition strayPointer :: App where
  "strayPointer = step ''g'' (SelectConversation ''zz'') startChat"

section \<open>The session history in the words of the specification\<close>

text \<open>
  The specification describes the history handed to the session as every message after
  the greeting, converted into the inline parts of its images followed by a text part,
  under the message's role. The two definitions below follow these words, to be compared
  with \<^term>\<open>messageContent\<close> and \<^term>\<open>sessionHistory\<close>, which follow the code.
\<close>

definition spec_messageContent :: "Message \<Rightarrow> Content" where
  "spec_messageContent msg =
     \<lparr>role_k = role msg, parts = imageParts (images msg) @ [TextPart (text_m msg)]\<rparr>"

definition spec_sessionHistory :: "Conversation \<Rightarrow> Content list" where
  "spec_sessionHistory c = map spec_messageContent (tl (messages c))"

section \<open>Basic facts\<close>

lemma oneChat_eq:
  "oneChat =
     \<lparr>conversations = [newConversation ''g'' ''a''], activeConversationId = Some ''a'',
      chatSession = None, isLoading = False, context_s = [], error_s = None,
      location = None\<rparr>"
  by (simp add: oneChat_def handleNewChat_def initialApp_def)

lemma id_c_newConversation: "id_c (newConversation gid nid) = nid"
  by (simp add: newConversation_def)

lemma find_map_id_c:
  assumes "\<And>c. id_c (f c) = id_c c"
  shows "find (\<lambda>c. id_c c = a) (map f cs) = map_option f (find (\<lambda>c. id_c c = a) cs)"
  by (induction cs) (simp_all add: assms)

lemma find_None_iff_id: "find (\<lambda>c. id_c c = a) cs = None \<longleftrightarrow> a \<notin> id_c ` set cs"
  by (induction cs) auto

lemma find_map_Some:
  assumes "\<And>c. id_c (f c) = id_c c" and "find (\<lambda>c. id_c c = a) cs = Some c"
  shows "find (\<lambda>c. id_c c = a) (map f cs) = Some (f c)"
  using assms by (simp add: find_map_id_c)

lemma find_Some_id_c: "find (\<lambda>c. id_c c = a) cs = Some c \<Longrightarrow> id_c c = a"
  by (induction cs) (auto split: if_splits)

lemma activeConversation_SomeD:
  assumes "activeConversation s = Some c"
  shows "activeConversationId s = Some (id_c c)"
    and "find (\<lambda>x. id_c x = id_c c) (conversations s) = Some c"
  using assms find_Some_id_c
  by (fastforce simp add: activeConversation_def split: option.splits)+

lemma findIndex_SomeD:
  "findIndex P xs = Some i \<Longrightarrow> i < length xs \<and> P (xs ! i)"
  by (induction xs arbitrary: i) (auto split: if_splits)

lemma findIndex_distinct:
  assumes "distinct (map f xs)" and "i < length xs"
  shows "findIndex (\<lambda>x. f x = f (xs ! i)) xs = Some i"
  using assms
proof (induction xs arbitrary: i)
  case Nil
  then show ?case by simp
next
  case (Cons x xs)
  show ?case
  proof (cases i)
    case 0
    then show ?thesis by simp
  next
    case (Suc k)
    with Cons.prems have k: "k < length xs" and d: "distinct (map f xs)"
      and nx: "f x \<notin> f ` set xs"
      by simp_all
    from k nx have "f x \<noteq> f (xs ! k)"
      by (metis imageI nth_mem)
    with Cons.IH [OF d k] Suc show ?thesis
      by simp
  qed
qed

lemma find_findIndex:
  "find P xs = Some x \<Longrightarrow> \<exists>i. findIndex P xs = Some i \<and> i < length xs \<and> xs ! i = x"
  by (induction xs) (auto split: if_splits)

lemma find_list_update_same:
  assumes "findIndex (\<lambda>c. id_c c = a) cs = Some i" and "id_c c' = a"
  shows "find (\<lambda>c. id_c c = a) (cs[i := c']) = Some c'"
  using assms by (induction cs arbitrary: i) (auto split: if_splits)

lemma filter_distinct_nth:
  assumes "distinct (map f xs)" and "i < length xs"
  shows "filter (\<lambda>x. f x \<noteq> f (xs ! i)) xs = take i xs @ drop (Suc i) xs"
  using assms
proof (induction xs arbitrary: i)
  case Nil
  then show ?case by simp
next
  case (Cons x xs)
  show ?case
  proof (cases i)
    case 0
    from Cons.prems have "f x \<notin> f ` set xs" by simp
    then have "filter (\<lambda>y. f y \<noteq> f x) xs = xs"
      by (simp add: filter_id_conv) (metis imageI)
    with 0 show ?thesis by simp
  next
    case (Suc k)
    with Cons.prems have k: "k < length xs" and d: "distinct (map f xs)"
      and nx: "f x \<notin> f ` set xs"
      by simp_all
    from k nx have "f x \<noteq> f (xs ! k)"
      by (metis imageI nth_mem)
    with Cons.IH [OF d k] Suc show ?thesis
      by simp
  qed
qed

section \<open>Deleting the only conversation\<close>

text \<open>
  Whenever the only conversation is the active one, deleting it takes the branch that
  calls \<^verbatim>\<open>handleNewChat()\<close> and returns: the fresh conversation is put in front of the
  one that was to be deleted.
\<close>

lemma delete_sole_active_conversation:
  assumes "conversations s = [c]" and "activeConversationId s = Some (id_c c)"
  shows "handleDeleteConversation gid nid (id_c c) s
           = s\<lparr>conversations := [newConversation gid nid, c], activeConversationId := Some nid\<rparr>"
  using assms by (simp add: handleDeleteConversation_def handleNewChat_def)

text \<open>
  C1. The claim: deleting the only conversation leaves exactly one conversation, the
  fresh one with the greeting alone, and it is active. The code, started on the state
  with the single active conversation \<open>a\<close>, ends with two conversations: the fresh one
  \<open>b\<close>, active, followed by \<open>a\<close>, which was to be deleted.
\<close>

theorem C1_delete_sole_conversation_keeps_it:
  "handleDeleteConversation ''g'' ''b'' ''a'' (handleNewChat ''g'' ''a'' initialApp)
     = initialApp\<lparr>conversations := [newConversation ''g'' ''b'', newConversation ''g'' ''a''],
                  activeConversationId := Some ''b''\<rparr>"
  by (simp add: handleDeleteConversation_def handleNewChat_def initialApp_def newConversation_def)

section \<open>Selecting a conversation\<close>

lemma select_absent_active:
  assumes "i \<notin> id_c ` set (conversations s)"
  shows "activeConversation (s\<lparr>activeConversationId := Some i\<rparr>) = None"
  using assms by (simp add: activeConversation_def find_None_iff_id)

lemma step_select_absent:
  assumes "i \<notin> id_c ` set (conversations s)"
  shows "step gid (SelectConversation i) s = s\<lparr>activeConversationId := Some i\<rparr>"
proof -
  let ?t = "s\<lparr>activeConversationId := Some i\<rparr>"
  have "bindSession ?t = ?t"
    by (simp add: bindSession_def select_absent_active [OF assms])
  then show ?thesis
    by (simp add: step_def sessionEffect_def handleSelectConversation_def)
qed

text \<open>
  C6, as stated: selecting an id that no conversation has changes nothing. It fails:
  on the state with the single conversation \<open>a\<close>, selecting \<open>zz\<close> moves the active
  pointer from \<open>a\<close> to \<open>zz\<close>.
\<close>

theorem C6_select_absent_id_moves_pointer:
  "''zz'' \<notin> id_c ` set (conversations oneChat)
   \<and> activeConversationId oneChat = Some ''a''
   \<and> activeConversationId (handleSelectConversation ''zz'' oneChat) = Some ''zz''
   \<and> activeConversationId (handleSelectConversation ''zz'' oneChat) \<noteq> activeConversationId oneChat"
  by (simp add: oneChat_eq id_c_newConversation handleSelectConversation_def)

text \<open>
  C6, amended: selecting an id that no conversation has leaves the conversation list
  (and every other cell) unchanged and sets the active pointer to that id, after which
  no conversation is active.
\<close>

theorem C6_select_absent_id:
  assumes "i \<notin> id_c ` set (conversations s)"
  shows "step gid (SelectConversation i) s = s\<lparr>activeConversationId := Some i\<rparr>
         \<and> conversations (step gid (SelectConversation i) s) = conversations s
         \<and> activeConversationId (step gid (SelectConversation i) s) = Some i
         \<and> activeConversation (step gid (SelectConversation i) s) = None"
  using step_select_absent [OF assms, of gid] select_absent_active [OF assms]
  by simp

theorem C6_select_absent_id_witness:
  "''zz'' \<notin> id_c ` set (conversations oneChat)
   \<and> activeConversationId (step ''g'' (SelectConversation ''zz'') oneChat) = Some ''zz''
   \<and> activeConversation (step ''g'' (SelectConversation ''zz'') oneChat) = None"
proof -
  have absent: "''zz'' \<notin> id_c ` set (conversations oneChat)"
    by (simp add: oneChat_eq id_c_newConversation)
  show ?thesis
    using absent C6_select_absent_id [OF absent, of "''g''"] by blast
qed

section \<open>Sends that do not start\<close>

text \<open>
  C8. When the prompt is empty and no image is supplied, or a send is in flight, or no
  conversation is active, \<^verbatim>\<open>handleSendMessage\<close> returns at its first line: the state is
  the one before, so the conversation list, every message count and the in-flight flag
  are unchanged. \<open>r\<close> is the render the handler closes over, \<open>s\<close> the current state.
\<close>

theorem C8_send_blocked_noop:
  assumes "(prompt = [] \<and> (imgs = None \<or> imgs = Some []))
           \<or> isLoading r \<or> activeConversation r = None"
  shows "handleSendMessage svc r prompt imgs uid mid s = s
         \<and> handler gid (SendStart r prompt imgs uid) s = s
         \<and> conversations (handleSendMessage svc r prompt imgs uid mid s) = conversations s
         \<and> map (\<lambda>c. length (messages c))
               (conversations (handleSendMessage svc r prompt imgs uid mid s))
             = map (\<lambda>c. length (messages c)) (conversations s)
         \<and> isLoading (handleSendMessage svc r prompt imgs uid mid s) = isLoading s"
proof -
  from assms have "sendBlocked r prompt imgs"
    by (auto simp add: sendBlocked_def)
  then show ?thesis
    by (simp add: handleSendMessage_def)
qed

theorem C8_send_blocked_noop_witness:
  "(([] :: string) = [] \<and> ((None :: string list option) = None \<or> (None :: string list option) = Some []))
   \<and> handleSendMessage silentService oneChat [] None ''u'' ''m'' oneChat = oneChat
   \<and> isLoading (handleSendMessage silentService oneChat [] None ''u'' ''m'' oneChat) = False"
  using C8_send_blocked_noop [where prompt = "[]" and imgs = None and r = oneChat
      and s = oneChat and svc = silentService and uid = "''u''" and mid = "''m''"]
  by (simp add: oneChat_eq)

section \<open>Deleting one of several conversations\<close>

text \<open>
  The indexed read \<^verbatim>\<open>newConversations[newActiveIndex]\<close> is always in range: every
  conversation before the first one with the id survives the filter.
\<close>

lemma findIndex_le_filter:
  "findIndex P xs = Some i \<Longrightarrow> i \<le> length (filter (\<lambda>x. \<not> P x) xs)"
  by (induction xs arbitrary: i) (auto split: if_splits)

lemma newActiveIndex_in_range:
  assumes "findIndex (\<lambda>c. id_c c = d) cs = Some index"
    and "0 < length (filter (\<lambda>c. id_c c \<noteq> d) cs)"
  shows "nat (max 0 (int index - 1)) < length (filter (\<lambda>c. id_c c \<noteq> d) cs)"
  using findIndex_le_filter [OF assms(1)] assms(2) by (cases index) simp_all

text \<open>
  C7. In a state whose conversations have pairwise different ids (the data model's
  unique identifiers) and number at least two, deleting the conversation at position
  \<open>i\<close> removes exactly that one. If it was the active one, the conversation before it
  becomes active, or, when it was the first, the first of those that remain. If it was
  not the active one, the active pointer is unchanged.
\<close>

theorem C7_delete_among_several:
  assumes dist: "distinct (map id_c (conversations s))"
    and two: "2 \<le> length (conversations s)"
    and i: "i < length (conversations s)"
  shows "(activeConversationId s = Some (id_c (conversations s ! i)) \<longrightarrow>
            conversations (handleDeleteConversation gid nid (id_c (conversations s ! i)) s)
              = take i (conversations s) @ drop (Suc i) (conversations s)
          \<and> activeConversationId (handleDeleteConversation gid nid (id_c (conversations s ! i)) s)
              = Some (id_c (if i = 0 then conversations s ! 1 else conversations s ! (i - 1))))
       \<and> (activeConversationId s \<noteq> Some (id_c (conversations s ! i)) \<longrightarrow>
            conversations (handleDeleteConversation gid nid (id_c (conversations s ! i)) s)
              = take i (conversations s) @ drop (Suc i) (conversations s)
          \<and> activeConversationId (handleDeleteConversation gid nid (id_c (conversations s ! i)) s)
              = activeConversationId s)"
proof -
  let ?cs = "conversations s"
  let ?d = "id_c (?cs ! i)"
  let ?rest = "take i ?cs @ drop (Suc i) ?cs"
  have idx: "findIndex (\<lambda>c. id_c c = ?d) ?cs = Some i"
    using dist i by (rule findIndex_distinct)
  have flt: "filter (\<lambda>c. id_c c \<noteq> ?d) ?cs = ?rest"
    using dist i by (rule filter_distinct_nth)
  have len: "length ?rest = length ?cs - 1"
    using i by simp
  then have pos: "0 < length ?rest"
    using two by simp
  have nth: "?rest ! nat (max 0 (int i - 1)) = (if i = 0 then ?cs ! 1 else ?cs ! (i - 1))"
  proof (cases i)
    case 0
    with two show ?thesis by (simp add: nth_drop)
  next
    case (Suc k)
    with i have "k < length (take i ?cs)" by simp
    then have "?rest ! k = ?cs ! k"
      using Suc by (simp add: nth_append)
    with Suc show ?thesis by simp
  qed
  have del: "handleDeleteConversation gid nid ?d s =
      (if activeConversationId s = Some ?d
       then s\<lparr>activeConversationId := Some (id_c (?rest ! nat (max 0 (int i - 1)))),
              conversations := ?rest\<rparr>
       else s\<lparr>conversations := ?rest\<rparr>)"
    unfolding handleDeleteConversation_def idx flt Let_def option.case
    using pos by presburger
  show ?thesis
    unfolding del nth by simp
qed

lemma twoChats_eq:
  "twoChats =
     \<lparr>conversations = [newConversation ''g'' ''b'', newConversation ''g'' ''a''],
      activeConversationId = Some ''b'', chatSession = None, isLoading = False,
      context_s = [], error_s = None, location = None\<rparr>"
  by (simp add: twoChats_def handleNewChat_def oneChat_eq)

theorem C7_delete_among_several_witness:
  "distinct (map id_c (conversations twoChats))
   \<and> 2 \<le> length (conversations twoChats)
   \<and> activeConversationId twoChats = Some (id_c (conversations twoChats ! 0))
   \<and> conversations (handleDeleteConversation ''g'' ''n'' ''b'' twoChats) = [newConversation ''g'' ''a'']
   \<and> activeConversationId (handleDeleteConversation ''g'' ''n'' ''b'' twoChats) = Some ''a''
   \<and> conversations (handleDeleteConversation ''g'' ''n'' ''a'' twoChats) = [newConversation ''g'' ''b'']
   \<and> activeConversationId (handleDeleteConversation ''g'' ''n'' ''a'' twoChats) = Some ''b''"
proof -
  have d: "distinct (map id_c (conversations twoChats))"
    and n: "2 \<le> length (conversations twoChats)"
    and i0: "0 < length (conversations twoChats)"
    and i1: "1 < length (conversations twoChats)"
    by (simp_all add: twoChats_eq id_c_newConversation)
  show ?thesis
    using d n C7_delete_among_several [OF d n i0, of "''g''" "''n''"]
      C7_delete_among_several [OF d n i1, of "''g''" "''n''"]
    by (simp add: twoChats_eq id_c_newConversation)
qed

section \<open>Failure of a send\<close>

lemma isLoading_sendSettle: "isLoading (sendSettle r outcome mid s) = False"
  by (simp add: sendSettle_def Let_def split: sum.splits prod.splits)

lemma sendSettle_Inl:
  "sendSettle r (Inl e) mid s =
     s\<lparr>error_s := Some (formatError e),
       conversations := appendToConversation (activeConversationId r)
                          (modelMessage mid (formatError e) None) (conversations s),
       isLoading := False\<rparr>"
  by (simp add: sendSettle_def Let_def)

lemma appendToConversation_active:
  assumes "find (\<lambda>x. id_c x = a) cs = Some c"
  shows "find (\<lambda>x. id_c x = a) (appendToConversation (Some a) msg cs)
           = Some (c\<lparr>messages := messages c @ [msg]\<rparr>)"
proof -
  have "id_c c = a" using assms by (rule find_Some_id_c)
  then show ?thesis
    unfolding appendToConversation_def
    by (subst find_map_Some [OF _ assms]) simp_all
qed

lemma sendOptimistic_active:
  assumes "activeConversation s = Some c"
  shows "activeConversation (sendOptimistic s prompt imgs uid s)
           = Some (c\<lparr>messages := messages c @ [userMessage uid prompt imgs],
                     title_c := (if length (messages c) = 1
                                 then take 40 (if prompt = [] then ''Image Upload'' else prompt) @ ''...''
                                 else title_c c)\<rparr>)"
proof -
  note a = activeConversation_SomeD [OF assms]
  define f :: "Conversation \<Rightarrow> Conversation" where "f = (\<lambda>x. if Some (id_c x) = Some (id_c c)
                 then x\<lparr>messages := messages x @ [userMessage uid prompt imgs],
                        title_c := (if length (messages c) = 1
                                    then take 40 (if prompt = [] then ''Image Upload'' else prompt) @ ''...''
                                    else title_c x)\<rparr>
                 else x)"
  have conv: "conversations (sendOptimistic s prompt imgs uid s) = map f (conversations s)"
    using a by (simp add: sendOptimistic_def Let_def f_def)
  have ida: "activeConversationId (sendOptimistic s prompt imgs uid s) = Some (id_c c)"
    using a(1) by (simp add: sendOptimistic_def Let_def)
  have "find (\<lambda>x. id_c x = id_c c) (map f (conversations s)) = Some (f c)"
    by (rule find_map_Some [OF _ a(2)]) (simp add: f_def)
  then have "activeConversation (sendOptimistic s prompt imgs uid s) = Some (f c)"
    by (simp add: activeConversation_def conv ida)
  then show ?thesis
    by (simp add: f_def)
qed

text \<open>
  C4. A send that passes its guard clears the in-flight flag at its end, whatever the
  outcome and whatever state it settles on. When the dispatch fails with an error \<open>e\<close>,
  let \<open>errorMessage\<close> be \<^verbatim>\<open>Error:\<close> and a blank followed by the message of \<open>e\<close>, or by
  the fixed text \<^verbatim>\<open>An unexpected error occurred.\<close> when the message is missing or empty.
  Then the error value of the state is \<open>errorMessage\<close>, and the message appended to the
  conversation with the captured id is a message of the model role whose text is
  \<open>errorMessage\<close> and which has no sources, images, playback flag or feedback. For a send
  started on the current state, the active conversation then consists of its former
  messages, the user's message and that error message.
\<close>

theorem C4_failure_is_reported_twice:
  assumes run: "\<not> sendBlocked s prompt imgs"
    and act: "activeConversation s = Some c"
  shows
    "(let errorMessage =
            ''Error: '' @
            (case message e of
               None \<Rightarrow> ''An unexpected error occurred.''
             | Some m \<Rightarrow> if m = [] then ''An unexpected error occurred.'' else m);
          errorBotMessage =
            \<lparr>id_m = mid, role = MODEL, text_m = errorMessage, sources = None,
             isPlaying = None, images = None, feedback = None\<rparr>
      in isLoading (handleSendMessage svc s prompt imgs uid mid s) = False
         \<and> isLoading (sendSettle r outcome mid s2) = False
         \<and> error_s (sendSettle r (Inl e) mid s2) = Some errorMessage
         \<and> conversations (sendSettle r (Inl e) mid s2)
             = map (\<lambda>x. if Some (id_c x) = activeConversationId r
                         then x\<lparr>messages := messages x @ [errorBotMessage]\<rparr> else x)
                   (conversations s2)
         \<and> formatError e = errorMessage
         \<and> modelMessage mid errorMessage None = errorBotMessage
         \<and> (dispatch svc s (mode c) prompt imgs = Inl e \<longrightarrow>
              error_s (handleSendMessage svc s prompt imgs uid mid s) = Some errorMessage
              \<and> map_option messages
                   (activeConversation (handleSendMessage svc s prompt imgs uid mid s))
                  = Some (messages c
                          @ [\<lparr>id_m = uid, role = USER, text_m = prompt, sources = None,
                              isPlaying = None, images = imgs, feedback = None\<rparr>,
                             errorBotMessage])))
     \<and> error_s (sendSettle r (Inl (JsError (Some (x # xs)))) mid s2)
         = Some (''Error: '' @ x # xs)
     \<and> error_s (sendSettle r (Inl (JsError None)) mid s2)
         = Some ''Error: An unexpected error occurred.''
     \<and> error_s (sendSettle r (Inl (JsError (Some []))) mid s2)
         = Some ''Error: An unexpected error occurred.''"
proof -
  let ?run = "handleSendMessage svc s prompt imgs uid mid s"
  let ?opt = "sendOptimistic s prompt imgs uid s"
  have run_eq: "?run = sendSettle s (dispatch svc s (mode c) prompt imgs) mid ?opt"
    using run act by (simp add: handleSendMessage_def)
  have idle: "isLoading ?run = False"
    by (simp add: run_eq isLoading_sendSettle)
  note a = activeConversation_SomeD [OF act]
  have fail: "error_s ?run = Some (formatError e)
              \<and> map_option messages (activeConversation ?run)
                  = Some (messages c @ [userMessage uid prompt imgs,
                                         modelMessage mid (formatError e) None])"
    if d: "dispatch svc s (mode c) prompt imgs = Inl e"
  proof -
    define t where "t = (if length (messages c) = 1
                         then take 40 (if prompt = [] then ''Image Upload'' else prompt) @ ''...''
                         else title_c c)"
    have t: "activeConversation ?opt
        = Some (c\<lparr>messages := messages c @ [userMessage uid prompt imgs], title_c := t\<rparr>)"
      unfolding t_def by (rule sendOptimistic_active [OF act])
    have ido: "activeConversationId ?opt = Some (id_c c)"
      using a(1) by (simp add: sendOptimistic_def Let_def)
    from t ido have fo: "find (\<lambda>x. id_c x = id_c c) (conversations ?opt)
        = Some (c\<lparr>messages := messages c @ [userMessage uid prompt imgs], title_c := t\<rparr>)"
      by (simp add: activeConversation_def)
    have "activeConversation ?run
            = Some (c\<lparr>messages := messages c @ [userMessage uid prompt imgs], title_c := t,
                      messages := (messages c @ [userMessage uid prompt imgs])
                                   @ [modelMessage mid (formatError e) None]\<rparr>)"
      using appendToConversation_active [OF fo, of "modelMessage mid (formatError e) None"]
      by (simp add: run_eq d sendSettle_Inl activeConversation_def ido a(1))
    then show ?thesis
      by (simp add: run_eq d sendSettle_Inl)
  qed
  have texts:
    "error_s (sendSettle r (Inl (JsError (Some (x # xs)))) mid s2) = Some (''Error: '' @ x # xs)"
    "error_s (sendSettle r (Inl (JsError None)) mid s2) = Some ''Error: An unexpected error occurred.''"
    "error_s (sendSettle r (Inl (JsError (Some []))) mid s2)
       = Some ''Error: An unexpected error occurred.''"
    by (simp_all add: sendSettle_Inl formatError_def)
  have settle:
    "error_s (sendSettle r (Inl e) mid s2) = Some (formatError e)"
    "conversations (sendSettle r (Inl e) mid s2)
       = map (\<lambda>x. if Some (id_c x) = activeConversationId r
                   then x\<lparr>messages := messages x @ [modelMessage mid (formatError e) None]\<rparr>
                   else x)
             (conversations s2)"
    by (simp_all add: sendSettle_Inl appendToConversation_def)
  show ?thesis
    unfolding Let_def formatError_def [of e, symmetric] modelMessage_def [symmetric]
      userMessage_def [symmetric]
    using idle fail texts settle by (simp add: isLoading_sendSettle)
qed

lemma thinkingChat_eq:
  "thinkingChat =
     \<lparr>conversations = [(newConversation ''g'' ''a'')\<lparr>mode := THINKING\<rparr>],
      activeConversationId = Some ''a'', chatSession = None, isLoading = False,
      context_s = [], error_s = None, location = None\<rparr>"
  by (simp add: thinkingChat_def handleSetMode_def noId_def oneChat_eq id_c_newConversation)

theorem C4_failure_is_reported_twice_witness:
  "\<not> sendBlocked thinkingChat ''hi'' None
   \<and> activeConversation thinkingChat = Some ((newConversation ''g'' ''a'')\<lparr>mode := THINKING\<rparr>)
   \<and> dispatch silentService thinkingChat THINKING ''hi'' None = Inl (JsError None)
   \<and> isLoading (handleSendMessage silentService thinkingChat ''hi'' None ''u'' ''m'' thinkingChat) = False
   \<and> error_s (handleSendMessage silentService thinkingChat ''hi'' None ''u'' ''m'' thinkingChat)
       = Some ''Error: An unexpected error occurred.''
   \<and> map_option messages
        (activeConversation (handleSendMessage silentService thinkingChat ''hi'' None ''u'' ''m'' thinkingChat))
       = Some [initialBotMessage ''g'',
               \<lparr>id_m = ''u'', role = USER, text_m = ''hi'', sources = None, isPlaying = None,
                images = None, feedback = None\<rparr>,
               \<lparr>id_m = ''m'', role = MODEL, text_m = ''Error: An unexpected error occurred.'',
                sources = None, isPlaying = None, images = None, feedback = None\<rparr>]
   \<and> \<not> sendBlocked oneChat ''hi'' None
   \<and> activeConversation oneChat = Some (newConversation ''g'' ''a'')
   \<and> dispatch silentService oneChat CHAT ''hi'' None
       = Inl (JsError (Some ''Chat session not initialized.''))
   \<and> isLoading (handleSendMessage silentService oneChat ''hi'' None ''u'' ''m'' oneChat) = False
   \<and> error_s (handleSendMessage silentService oneChat ''hi'' None ''u'' ''m'' oneChat)
       = Some ''Error: Chat session not initialized.''
   \<and> map_option messages
        (activeConversation (handleSendMessage silentService oneChat ''hi'' None ''u'' ''m'' oneChat))
       = Some [initialBotMessage ''g'',
               \<lparr>id_m = ''u'', role = USER, text_m = ''hi'', sources = None, isPlaying = None,
                images = None, feedback = None\<rparr>,
               \<lparr>id_m = ''m'', role = MODEL, text_m = ''Error: Chat session not initialized.'',
                sources = None, isPlaying = None, images = None, feedback = None\<rparr>]"
proof -
  have act: "activeConversation thinkingChat = Some ((newConversation ''g'' ''a'')\<lparr>mode := THINKING\<rparr>)"
    by (simp add: thinkingChat_eq activeConversation_def id_c_newConversation)
  have run: "\<not> sendBlocked thinkingChat ''hi'' None"
    by (simp add: sendBlocked_def act) (simp add: thinkingChat_eq noId_def)
  have d: "dispatch silentService thinkingChat THINKING ''hi'' None = Inl (JsError None)"
    by (simp add: dispatch_def getThinkingResponse_def silentService_def)
  have act1: "activeConversation oneChat = Some (newConversation ''g'' ''a'')"
    by (simp add: oneChat_eq activeConversation_def id_c_newConversation)
  have run1: "\<not> sendBlocked oneChat ''hi'' None"
    by (simp add: sendBlocked_def act1) (simp add: oneChat_eq noId_def)
  have d1: "dispatch silentService oneChat CHAT ''hi'' None
              = Inl (JsError (Some ''Chat session not initialized.''))"
    by (simp add: dispatch_def oneChat_eq)
  have fallback:
    "isLoading (handleSendMessage silentService thinkingChat ''hi'' None ''u'' ''m'' thinkingChat) = False
     \<and> error_s (handleSendMessage silentService thinkingChat ''hi'' None ''u'' ''m'' thinkingChat)
         = Some ''Error: An unexpected error occurred.''
     \<and> map_option messages
          (activeConversation (handleSendMessage silentService thinkingChat ''hi'' None ''u'' ''m'' thinkingChat))
         = Some [initialBotMessage ''g'',
                 \<lparr>id_m = ''u'', role = USER, text_m = ''hi'', sources = None, isPlaying = None,
                  images = None, feedback = None\<rparr>,
                 \<lparr>id_m = ''m'', role = MODEL, text_m = ''Error: An unexpected error occurred.'',
                  sources = None, isPlaying = None, images = None, feedback = None\<rparr>]"
    using d
      C4_failure_is_reported_twice [OF run act, of "JsError None" "''m''" silentService "''u''"]
    by (simp add: Let_def newConversation_def)
  have named:
    "isLoading (handleSendMessage silentService oneChat ''hi'' None ''u'' ''m'' oneChat) = False
     \<and> error_s (handleSendMessage silentService oneChat ''hi'' None ''u'' ''m'' oneChat)
         = Some ''Error: Chat session not initialized.''
     \<and> map_option messages
          (activeConversation (handleSendMessage silentService oneChat ''hi'' None ''u'' ''m'' oneChat))
         = Some [initialBotMessage ''g'',
                 \<lparr>id_m = ''u'', role = USER, text_m = ''hi'', sources = None, isPlaying = None,
                  images = None, feedback = None\<rparr>,
                 \<lparr>id_m = ''m'', role = MODEL, text_m = ''Error: Chat session not initialized.'',
                  sources = None, isPlaying = None, images = None, feedback = None\<rparr>]"
    using d1
      C4_failure_is_reported_twice
        [OF run1 act1, of "JsError (Some ''Chat session not initialized.'')" "''m''"
          silentService "''u''"]
    by (simp add: Let_def newConversation_def)
  show ?thesis
    using run act d run1 act1 d1 fallback named by simp
qed

section \<open>Editing a message\<close>

text \<open>
  C2. Let a conversation be active, its messages carry pairwise different ids, and a
  user message sit at index \<open>i > 0\<close>, with no send in flight. Then
  \<^verbatim>\<open>handleEditMessage\<close> on that message's id replaces the conversation's messages by the
  first \<open>i\<close> of them, leaves every other conversation as it is, and schedules
  \<^verbatim>\<open>handleSendMessage\<close> with the new text and the images of the edited message.
\<close>

theorem C2_edit_truncates_and_resends:
  assumes act: "activeConversation s = Some c"
    and idne: "id_c c \<noteq> []"
    and dist: "distinct (map id_m (messages c))"
    and i: "i < length (messages c)" and ipos: "0 < i"
    and usr: "role (messages c ! i) = USER"
    and idle: "\<not> isLoading s"
  shows "\<exists>k < length (conversations s).
           conversations s ! k = c
           \<and> handleEditMessage (id_m (messages c ! i)) newText s
               = (s\<lparr>conversations :=
                      (conversations s)[k := c\<lparr>messages := take i (messages c)\<rparr>]\<rparr>,
                  Some (newText, images (messages c ! i)))
           \<and> activeConversation (fst (handleEditMessage (id_m (messages c ! i)) newText s))
               = Some (c\<lparr>messages := take i (messages c)\<rparr>)"
proof -
  note a = activeConversation_SomeD [OF act]
  obtain k where k: "findIndex (\<lambda>x. id_c x = id_c c) (conversations s) = Some k"
    and klen: "k < length (conversations s)" and kc: "conversations s ! k = c"
    using find_findIndex [OF a(2)] by blast
  have k': "findIndex (\<lambda>x. Some (id_c x) = activeConversationId s) (conversations s) = Some k"
    using k by (simp add: a(1))
  have mi: "findIndex (\<lambda>m. id_m m = id_m (messages c ! i)) (messages c) = Some i"
    using dist i by (rule findIndex_distinct)
  have edit: "handleEditMessage (id_m (messages c ! i)) newText s
               = (s\<lparr>conversations :=
                      (conversations s)[k := c\<lparr>messages := take i (messages c)\<rparr>]\<rparr>,
                  Some (newText, images (messages c ! i)))"
    using idle idne ipos usr
    by (simp add: handleEditMessage_def noId_def a(1) k kc mi Let_def)
  have "find (\<lambda>x. id_c x = id_c c)
          ((conversations s)[k := c\<lparr>messages := take i (messages c)\<rparr>])
          = Some (c\<lparr>messages := take i (messages c)\<rparr>)"
    by (rule find_list_update_same [OF k]) simp
  then have "activeConversation (fst (handleEditMessage (id_m (messages c ! i)) newText s))
               = Some (c\<lparr>messages := take i (messages c)\<rparr>)"
    by (simp add: edit activeConversation_def a(1))
  with klen kc edit show ?thesis by blast
qed

lemma id_m_simps:
  "id_m (initialBotMessage gid) = gid"
  "id_m (userMessage uid prompt imgs) = uid"
  "id_m (modelMessage mid t srcs) = mid"
  by (simp_all add: initialBotMessage_def userMessage_def modelMessage_def)

theorem C2_edit_truncates_and_resends_witness:
  "activeConversation dialogueChat = Some dialogue
   \<and> distinct (map id_m (messages dialogue))
   \<and> length (messages dialogue) = 5
   \<and> role (messages dialogue ! 3) = USER
   \<and> \<not> isLoading dialogueChat
   \<and> handleEditMessage ''u2'' ''And Madrid?'' dialogueChat
       = (dialogueChat\<lparr>conversations :=
                         [dialogue\<lparr>messages := take 3 (messages dialogue)\<rparr>]\<rparr>,
          Some (''And Madrid?'', None))
   \<and> handleEditMessage ''u1'' ''Tell me about Oslo'' dialogueChat
       = (dialogueChat\<lparr>conversations :=
                         [dialogue\<lparr>messages := [initialBotMessage ''g'']\<rparr>]\<rparr>,
          Some (''Tell me about Oslo'', Some [pngImage]))"
proof -
  have act: "activeConversation dialogueChat = Some dialogue"
    by (simp add: dialogueChat_def oneChat_eq activeConversation_def) (simp add: dialogue_def)
  have idne: "id_c dialogue \<noteq> []"
    by (simp add: dialogue_def)
  have dist: "distinct (map id_m (messages dialogue))"
    by (simp add: dialogue_def id_m_simps)
  have idle: "\<not> isLoading dialogueChat"
    by (simp add: dialogueChat_def oneChat_eq)
  have len: "length (messages dialogue) = 5"
    by (simp add: dialogue_def)
  have m3: "messages dialogue ! 3 = userMessage ''u2'' ''And Rome?'' None"
    and m1: "messages dialogue ! Suc 0 = userMessage ''u1'' ''Tell me about Paris'' (Some [pngImage])"
    by (simp_all add: dialogue_def)
  have t1: "take (Suc 0) (messages dialogue) = [initialBotMessage ''g'']"
    by (simp add: dialogue_def)
  have cs: "conversations dialogueChat = [dialogue]"
    by (simp add: dialogueChat_def)
  have e3: "handleEditMessage ''u2'' ''And Madrid?'' dialogueChat
       = (dialogueChat\<lparr>conversations :=
                         [dialogue\<lparr>messages := take 3 (messages dialogue)\<rparr>]\<rparr>,
          Some (''And Madrid?'', None))"
    using C2_edit_truncates_and_resends [OF act idne dist, of 3 "''And Madrid?''"] idle
    by (simp add: len m3 cs userMessage_def)
  have e1: "handleEditMessage ''u1'' ''Tell me about Oslo'' dialogueChat
       = (dialogueChat\<lparr>conversations :=
                         [dialogue\<lparr>messages := [initialBotMessage ''g'']\<rparr>]\<rparr>,
          Some (''Tell me about Oslo'', Some [pngImage]))"
    using C2_edit_truncates_and_resends [OF act idne dist, of 1 "''Tell me about Oslo''"] idle
    by (simp add: len m1 cs t1 userMessage_def)
  show ?thesis
    using act dist len idle e3 e1 by (simp add: m3 userMessage_def)
qed

section \<open>Feedback\<close>

lemma likedGreeting_eq:
  "likedGreeting =
     oneChat\<lparr>conversations :=
       [(newConversation ''g'' ''a'')
          \<lparr>messages := [(initialBotMessage ''g'')\<lparr>feedback := Some (Tag up)\<rparr>]\<rparr>]\<rparr>"
  by (simp add: likedGreeting_def handleFeedback_def noId_def oneChat_eq id_c_newConversation)
     (simp add: newConversation_def id_m_simps toggleFeedback_def initialBotMessage_def)

text \<open>
  C5, as stated: for every message, two applications of the same tag leave the message
  without feedback. It fails for a message that already carries the tag: the greeting
  marked \<open>up\<close> is marked \<open>up\<close> again after two more applications of \<open>up\<close>.
\<close>

theorem C5_same_tag_twice_keeps_tag:
  "map (map feedback \<circ> messages) (conversations likedGreeting) = [[Some (Tag up)]]
   \<and> map (map feedback \<circ> messages)
        (conversations (handleFeedback ''g'' up (handleFeedback ''g'' up likedGreeting)))
       = [[Some (Tag up)]]"
  by (simp add: likedGreeting_eq handleFeedback_def noId_def oneChat_eq id_c_newConversation
      id_m_simps toggleFeedback_def)

lemma toggleFeedback_twice:
  "feedback (toggleFeedback t (toggleFeedback t m))
     = Some (if feedback m = Some (Tag t) then Tag t else Null)"
  by (simp add: toggleFeedback_def)

lemma handleFeedback_conversations:
  assumes "activeConversationId s = Some a" and "a \<noteq> []"
  shows "conversations (handleFeedback mid t s) =
           map (\<lambda>c. if id_c c = a
                     then c\<lparr>messages := map (\<lambda>m. if id_m m = mid then toggleFeedback t m else m)
                                            (messages c)\<rparr>
                     else c) (conversations s)"
    and "activeConversationId (handleFeedback mid t s) = Some a"
  using assms by (simp_all add: handleFeedback_def noId_def)

text \<open>
  C5, amended: for every message of the active conversation and every tag \<open>t\<close>, one
  application of \<^verbatim>\<open>setFeedback(id, t)\<close> leaves the message with \<open>t\<close>, or with \<^verbatim>\<open>null\<close> when
  it carried \<open>t\<close> before, so with at most one tag; two applications in succession leave
  it with \<^verbatim>\<open>null\<close> when it did not carry \<open>t\<close> before, and with \<open>t\<close> again when it did.
\<close>

theorem C5_feedback_toggle:
  assumes act: "activeConversationId s = Some a" and ne: "a \<noteq> []"
    and i: "i < length (conversations s)" and ci: "id_c (conversations s ! i) = a"
    and j: "j < length (messages (conversations s ! i))"
    and mj: "id_m (messages (conversations s ! i) ! j) = mid"
  shows "feedback (messages (conversations (handleFeedback mid t s) ! i) ! j)
           = Some (if feedback (messages (conversations s ! i) ! j) = Some (Tag t)
                   then Null else Tag t)
       \<and> feedback (messages (conversations (handleFeedback mid t (handleFeedback mid t s)) ! i) ! j)
           = Some (if feedback (messages (conversations s ! i) ! j) = Some (Tag t)
                   then Tag t else Null)"
proof -
  let ?s1 = "handleFeedback mid t s"
  note one = handleFeedback_conversations [OF act ne, of mid t]
  note two = handleFeedback_conversations [OF one(2) ne, of mid t]
  have m1: "messages (conversations ?s1 ! i) ! j
              = toggleFeedback t (messages (conversations s ! i) ! j)"
    using i ci j mj by (simp add: one(1))
  have idm: "id_m (toggleFeedback t m) = id_m m" for m
    by (simp add: toggleFeedback_def)
  have i1: "i < length (conversations ?s1)" and c1: "id_c (conversations ?s1 ! i) = a"
    and j1: "j < length (messages (conversations ?s1 ! i))"
    using i ci j by (simp_all add: one(1))
  have m2: "messages (conversations (handleFeedback mid t ?s1) ! i) ! j
              = toggleFeedback t (toggleFeedback t (messages (conversations s ! i) ! j))"
    using i1 c1 j1 mj by (simp add: two(1) m1 idm)
  show ?thesis
    unfolding m1 m2 toggleFeedback_twice by (simp add: toggleFeedback_def)
qed

theorem C5_feedback_toggle_witness:
  "activeConversationId oneChat = Some ''a''
   \<and> id_c (conversations oneChat ! 0) = ''a''
   \<and> id_m (messages (conversations oneChat ! 0) ! 0) = ''g''
   \<and> feedback (messages (conversations oneChat ! 0) ! 0) = None
   \<and> feedback (messages (conversations (handleFeedback ''g'' down oneChat) ! 0) ! 0)
       = Some (Tag down)
   \<and> feedback (messages (conversations (handleFeedback ''g'' down (handleFeedback ''g'' down oneChat)) ! 0) ! 0)
       = Some Null"
proof -
  have act: "activeConversationId oneChat = Some ''a''" and ne: "''a'' \<noteq> ([] :: string)"
    and i: "0 < length (conversations oneChat)"
    and ci: "id_c (conversations oneChat ! 0) = ''a''"
    by (simp_all add: oneChat_eq id_c_newConversation)
  have j: "0 < length (messages (conversations oneChat ! 0))"
    and mj: "id_m (messages (conversations oneChat ! 0) ! 0) = ''g''"
    and fb: "feedback (messages (conversations oneChat ! 0) ! 0) = None"
    by (simp_all add: oneChat_eq newConversation_def initialBotMessage_def)
  show ?thesis
    using act ci mj fb C5_feedback_toggle [OF act ne i ci j mj, of down]
    by simp
qed

section \<open>Images as inline parts\<close>

lemma split_comma_not_Nil: "split_comma s \<noteq> []"
  by (induction s) (auto split: list.splits)

lemma split_comma_first:
  "split_comma s =
     takeWhile (\<lambda>c. c \<noteq> CHR '','') s #
     (case dropWhile (\<lambda>c. c \<noteq> CHR '','') s of [] \<Rightarrow> [] | _ # r \<Rightarrow> split_comma r)"
proof (induction s)
  case Nil
  then show ?case by simp
next
  case (Cons c s)
  then show ?case
    by (cases "split_comma s") (auto simp add: split_comma_not_Nil)
qed

lemma imagePart_first_comma:
  "imagePart img =
     (case dropWhile (\<lambda>c. c \<noteq> CHR '','') img of
        [] \<Rightarrow> []
      | _ # payload \<Rightarrow>
          (case match_mime (takeWhile (\<lambda>c. c \<noteq> CHR '','') img) of
             None \<Rightarrow> []
           | Some m \<Rightarrow>
               if takeWhile (\<lambda>c. c \<noteq> CHR '','') payload \<noteq> [] \<and> m \<noteq> []
               then [InlineData (takeWhile (\<lambda>c. c \<noteq> CHR '','') payload) m]
               else []))"
proof (cases "dropWhile (\<lambda>c. c \<noteq> CHR '','') img")
  case Nil
  have "split_comma img = [takeWhile (\<lambda>c. c \<noteq> CHR '','') img]"
    by (subst split_comma_first) (simp only: Nil list.case)
  then show ?thesis
    by (simp only: imagePart_def Nil list.case option.case)
next
  case (Cons k payload)
  then show ?thesis
    by (simp add: imagePart_def split_comma_first [of img] split_comma_first [of payload]
        split: option.splits)
qed

lemma imagePart_cases:
  "imagePart img = [] \<or> (\<exists>d m. imagePart img = [InlineData d m] \<and> d \<noteq> [] \<and> m \<noteq> [])"
  by (simp add: imagePart_def split: list.splits option.splits)

lemma imageParts_member:
  assumes "p \<in> set (imageParts imgs)"
  shows "\<exists>xs img. imgs = Some xs \<and> img \<in> set xs \<and> imagePart img = [p]
                   \<and> is_inlineData p \<and> data p \<noteq> [] \<and> mimeType p \<noteq> []"
proof -
  from assms obtain xs where xs: "imgs = Some xs" and "p \<in> set (concat (map imagePart xs))"
    by (auto simp add: imageParts_def split: option.splits)
  then obtain img where img: "img \<in> set xs" and p: "p \<in> set (imagePart img)"
    by auto
  from p imagePart_cases [of img] obtain d m
    where "imagePart img = [InlineData d m]" "d \<noteq> []" "m \<noteq> []" "p = InlineData d m"
    by auto
  with xs img show ?thesis by auto
qed

lemma inline_imageParts: "filter is_inlineData (imageParts imgs) = imageParts imgs"
  using imageParts_member by (fastforce simp add: filter_id_conv)

text \<open>
  C10. Each image string is cut at its first comma: the text before it is searched for
  the MIME type, the text after it up to the next comma is the payload. The string
  contributes one inline part when a MIME type is found and neither it nor the payload
  is empty, and nothing otherwise. So every part that \<^term>\<open>imageParts\<close> yields is an
  inline part with a non-empty payload and MIME type, made from one of the strings; and
  the inline parts of the four conversions (session history entry, plain send, the
  requests of \<^verbatim>\<open>getThinkingResponse\<close> and \<^verbatim>\<open>getMapsResponse\<close>) are exactly those that
  \<^term>\<open>imageParts\<close> yields. The functions are total: no step of the conversion can throw.
\<close>

theorem C10_images_to_inline_parts:
  "imagePart img =
     (case dropWhile (\<lambda>c. c \<noteq> CHR '','') img of
        [] \<Rightarrow> []
      | _ # payload \<Rightarrow>
          (case match_mime (takeWhile (\<lambda>c. c \<noteq> CHR '','') img) of
             None \<Rightarrow> []
           | Some m \<Rightarrow>
               if takeWhile (\<lambda>c. c \<noteq> CHR '','') payload \<noteq> [] \<and> m \<noteq> []
               then [InlineData (takeWhile (\<lambda>c. c \<noteq> CHR '','') payload) m]
               else []))
   \<and> (\<forall>p \<in> set (imageParts imgs).
         is_inlineData p \<and> data p \<noteq> [] \<and> mimeType p \<noteq> []
         \<and> (\<exists>xs x. imgs = Some xs \<and> x \<in> set xs \<and> imagePart x = [p]))
   \<and> filter is_inlineData (parts (messageContent msg)) = imageParts (images msg)
   \<and> filter is_inlineData (chatUserParts ctx prompt imgs) = imageParts imgs
   \<and> filter is_inlineData (getThinkingResponse_userParts prompt ctx imgs) = imageParts imgs
   \<and> filter is_inlineData (getMapsResponse_userParts prompt ctx imgs) = imageParts imgs"
proof -
  have members: "\<forall>p \<in> set (imageParts imgs).
         is_inlineData p \<and> data p \<noteq> [] \<and> mimeType p \<noteq> []
         \<and> (\<exists>xs x. imgs = Some xs \<and> x \<in> set xs \<and> imagePart x = [p])"
    using imageParts_member by blast
  have session: "filter is_inlineData (parts (messageContent msg)) = imageParts (images msg)"
    by (simp add: messageContent_def inline_imageParts)
  have chat: "filter is_inlineData (chatUserParts ctx prompt imgs) = imageParts imgs"
    by (simp add: chatUserParts_def inline_imageParts)
  have thinking: "filter is_inlineData (getThinkingResponse_userParts prompt ctx imgs) = imageParts imgs"
    by (simp add: getThinkingResponse_userParts_def inline_imageParts Let_def)
  have grounded: "filter is_inlineData (getMapsResponse_userParts prompt ctx imgs) = imageParts imgs"
    by (simp add: getMapsResponse_userParts_def inline_imageParts Let_def)
  from imagePart_first_comma [of img] members session chat thinking grounded
  show ?thesis by blast
qed

theorem C10_images_to_inline_parts_witness:
  "imagePart pngImage = [InlineData ''AAAA'' ''image/png'']
   \<and> imageParts (Some [pngImage, ''no comma here'', ''data:;base64,QUJD'', ''data:image/png;base64,''])
       = [InlineData ''AAAA'' ''image/png'']
   \<and> filter is_inlineData
        (chatUserParts [] ''hi'' (Some [pngImage, ''no comma here'']))
       = [InlineData ''AAAA'' ''image/png'']"
proof -
  have one: "imagePart pngImage = [InlineData ''AAAA'' ''image/png'']"
    using C10_images_to_inline_parts [of pngImage None undefined "[]" "[]"]
    by (simp add: pngImage_def lineTerminator_def)
  have skip: "imagePart ''no comma here'' = []" "imagePart ''data:;base64,QUJD'' = []"
    "imagePart ''data:image/png;base64,'' = []"
    by (simp_all add: imagePart_def lineTerminator_def)
  show ?thesis
    using C10_images_to_inline_parts
      [of pngImage "Some [pngImage, ''no comma here'']" undefined "[]" "''hi''"]
    by (simp add: one skip imageParts_def)
qed

section \<open>The session binder\<close>

lemma activeConversation_bindSession [simp]:
  "activeConversation (bindSession s) = activeConversation s"
  by (simp add: bindSession_def activeConversation_def split: option.splits)

lemma conversations_bindSession [simp]: "conversations (bindSession s) = conversations s"
  and activeConversationId_bindSession [simp]:
    "activeConversationId (bindSession s) = activeConversationId s"
  by (simp_all add: bindSession_def split: option.splits)

lemma conversations_sessionEffect [simp]: "conversations (sessionEffect old s) = conversations s"
  and activeConversationId_sessionEffect [simp]:
    "activeConversationId (sessionEffect old s) = activeConversationId s"
  and activeConversation_sessionEffect [simp]:
    "activeConversation (sessionEffect old s) = activeConversation s"
  by (simp_all add: sessionEffect_def)

lemma chatSession_bindSession:
  "activeConversation s = Some c \<Longrightarrow>
     chatSession (bindSession s) = (if mode c = CHAT then Some (sessionHistory c) else None)"
  by (simp add: bindSession_def)

lemma chatSession_handler: "chatSession (handler gid ev s) = chatSession s"
proof (cases ev)
  case (DeleteConversation nid i)
  then show ?thesis
    by (simp add: handleDeleteConversation_def handleNewChat_def Let_def split: option.splits)
next
  case (EditMessage i t)
  then show ?thesis
    by (simp add: handleEditMessage_def Let_def split: option.splits)
next
  case (SendStart r prompt imgs uid)
  then show ?thesis
    by (simp add: sendOptimistic_def Let_def)
next
  case (SendSettled r outcome mid)
  then show ?thesis
    by (simp add: sendSettle_def Let_def split: sum.splits prod.splits)
qed (simp_all add: handleNewChat_def handleSelectConversation_def handleRenameConversation_def
      handleClearAllConversations_def handleSetContext_def handleSetMode_def handleFeedback_def
      titleResolved_def setPlaying_def Let_def)

lemma sessionEffect_bound:
  assumes old: "\<And>c. activeConversation old = Some c \<Longrightarrow>
                  chatSession old = (if mode c = CHAT then Some (sessionHistory c) else None)"
    and same: "chatSession s = chatSession old"
    and act: "activeConversation (sessionEffect old s) = Some c"
  shows "chatSession (sessionEffect old s) = (if mode c = CHAT then Some (sessionHistory c) else None)"
proof (cases "activeConversation s = activeConversation old")
  case True
  with act have "activeConversation old = Some c" by simp
  from old [OF this] same True show ?thesis
    by (simp add: sessionEffect_def)
next
  case False
  with act show ?thesis
    by (simp add: sessionEffect_def chatSession_bindSession)
qed

lemma reachable_session_bound:
  assumes "reachable gid s" and "activeConversation s = Some c"
  shows "chatSession s = (if mode c = CHAT then Some (sessionHistory c) else None)"
  using assms
proof (induction arbitrary: c rule: reachable.induct)
  case (mounted nid storedHistory s)
  then obtain s0 where s: "s = sessionEffect initialApp s0"
    by (auto simp add: mount_def)
  have none: "activeConversation initialApp = None"
    by (simp add: activeConversation_def initialApp_def)
  show ?case
    using mounted.prems none unfolding s
    by (simp add: sessionEffect_def chatSession_bindSession split: if_splits)
next
  case (stepped s ev)
  show ?case
    unfolding step_def
  proof (rule sessionEffect_bound)
    show "chatSession (handler gid ev s) = chatSession s"
      by (rule chatSession_handler)
    show "activeConversation (sessionEffect s (handler gid ev s)) = Some c"
      using stepped.prems by (simp add: step_def)
  qed (rule stepped.IH)
qed

lemma handleSetMode_active:
  assumes act: "activeConversation s = Some c" and ne: "id_c c \<noteq> []"
  shows "activeConversation (handleSetMode m s) = Some (c\<lparr>mode := m\<rparr>)"
    and "map messages (conversations (handleSetMode m s)) = map messages (conversations s)"
proof -
  note a = activeConversation_SomeD [OF act]
  let ?f = "\<lambda>x. if id_c x = id_c c then x\<lparr>mode := m\<rparr> else x"
  have hs: "handleSetMode m s = s\<lparr>conversations := map ?f (conversations s)\<rparr>"
    using ne by (simp add: handleSetMode_def noId_def a(1))
  have "find (\<lambda>x. id_c x = id_c c) (map ?f (conversations s)) = Some (?f c)"
    by (rule find_map_Some [OF _ a(2)]) simp
  then show "activeConversation (handleSetMode m s) = Some (c\<lparr>mode := m\<rparr>)"
    by (simp add: hs activeConversation_def a(1))
  show "map messages (conversations (handleSetMode m s)) = map messages (conversations s)"
    by (simp add: hs comp_def if_distrib cong: if_cong)
qed

lemma initialApp_active: "activeConversation initialApp = None"
  by (simp add: activeConversation_def initialApp_def)

lemma startChat_eq:
  "startChat =
     \<lparr>conversations = [newConversation ''g'' ''a''], activeConversationId = Some ''a'',
      chatSession = Some [], isLoading = False, context_s = [], error_s = None,
      location = None\<rparr>"
  by (simp add: startChat_def sessionEffect_def initialApp_active bindSession_def)
     (simp add: handleNewChat_def initialApp_def activeConversation_def id_c_newConversation
        sessionHistory_def newConversation_def)

lemma mount_fresh: "mount ''g'' ''a'' None = Some startChat"
  by (simp add: mount_def loadHistory_def startChat_def)

lemma reachable_startChat: "reachable ''g'' startChat"
  using mount_fresh by (rule reachable.mounted)

lemma reachable_imageOnlyChat: "reachable ''g'' imageOnlyChat"
  unfolding imageOnlyChat_def using reachable_startChat by (rule reachable.stepped)

lemma startChat_active: "activeConversation startChat = Some (newConversation ''g'' ''a'')"
  by (simp add: startChat_eq activeConversation_def id_c_newConversation)

lemma imageOnlyChat_active:
  "activeConversation imageOnlyChat =
     Some ((newConversation ''g'' ''a'')
             \<lparr>messages := [initialBotMessage ''g'', userMessage ''u1'' [] (Some [pngImage])],
              title_c := ''Image Upload...''\<rparr>)"
proof -
  have go: "\<not> sendBlocked startChat [] (Some [pngImage])"
    by (simp add: sendBlocked_def startChat_active) (simp add: startChat_eq noId_def)
  have "activeConversation imageOnlyChat
          = activeConversation (sendOptimistic startChat [] (Some [pngImage]) ''u1'' startChat)"
    by (simp add: imageOnlyChat_def step_def go)
  also have "\<dots> = Some ((newConversation ''g'' ''a'')
             \<lparr>messages := messages (newConversation ''g'' ''a'')
                            @ [userMessage ''u1'' [] (Some [pngImage])],
              title_c := (if length (messages (newConversation ''g'' ''a'')) = 1
                          then take 40 (if ([] :: string) = [] then ''Image Upload'' else []) @ ''...''
                          else title_c (newConversation ''g'' ''a''))\<rparr>)"
    by (rule sendOptimistic_active [OF startChat_active])
  finally show ?thesis
    by (simp add: newConversation_def)
qed

lemma strayPointer_eq: "strayPointer = startChat\<lparr>activeConversationId := Some ''zz''\<rparr>"
  unfolding strayPointer_def
  by (rule step_select_absent) (simp add: startChat_eq id_c_newConversation)

lemma reachable_strayPointer: "reachable ''g'' strayPointer"
  unfolding strayPointer_def using reachable_startChat by (rule reachable.stepped)

text \<open>
  C9, as stated: after every operation a session is bound exactly when the active
  conversation is in plain mode, and its history is every message after the greeting as
  inline parts followed by a text part. It fails in two reachable states. After an image
  is sent with an empty prompt, the history entry of that message has the inline part
  and no text part, where the stated conversion has a text part. After an id is selected
  that no conversation has, a session is still bound although no conversation is active.
\<close>

theorem C9_image_only_message_has_no_text_part:
  "reachable ''g'' imageOnlyChat
   \<and> map_option mode (activeConversation imageOnlyChat) = Some CHAT
   \<and> chatSession imageOnlyChat
       = Some [\<lparr>role_k = USER, parts = [InlineData ''AAAA'' ''image/png'']\<rparr>]
   \<and> map_option spec_sessionHistory (activeConversation imageOnlyChat)
       = Some [\<lparr>role_k = USER, parts = [InlineData ''AAAA'' ''image/png'', TextPart []]\<rparr>]
   \<and> chatSession imageOnlyChat
       \<noteq> map_option spec_sessionHistory (activeConversation imageOnlyChat)
   \<and> reachable ''g'' strayPointer
   \<and> activeConversation strayPointer = None
   \<and> chatSession strayPointer = Some []"
proof -
  have img: "imageParts (Some [pngImage]) = [InlineData ''AAAA'' ''image/png'']"
    by (simp add: imageParts_def imagePart_def pngImage_def lineTerminator_def)
  have bound: "chatSession imageOnlyChat
       = Some [\<lparr>role_k = USER, parts = [InlineData ''AAAA'' ''image/png'']\<rparr>]"
    using reachable_session_bound [OF reachable_imageOnlyChat imageOnlyChat_active]
    by (simp add: newConversation_def sessionHistory_def messageContent_def userMessage_def img)
  have spec: "map_option spec_sessionHistory (activeConversation imageOnlyChat)
       = Some [\<lparr>role_k = USER, parts = [InlineData ''AAAA'' ''image/png'', TextPart []]\<rparr>]"
    by (simp add: imageOnlyChat_active spec_sessionHistory_def spec_messageContent_def
        userMessage_def img)
  have stray: "activeConversation strayPointer = None" "chatSession strayPointer = Some []"
    by (simp_all add: strayPointer_eq startChat_eq activeConversation_def id_c_newConversation)
  show ?thesis
    using reachable_imageOnlyChat reachable_strayPointer bound spec stray
    by (simp add: imageOnlyChat_active newConversation_def)
qed

text \<open>
  C9, amended: in every reachable state (that is, after every operation) in which a
  conversation is active, a session is bound exactly when that conversation's mode is
  plain, and the bound session's history is the conversation's messages after the first,
  each converted to the inline parts of its images followed by a text part when its text
  is not empty, under the message's role. Switching the active conversation's mode away
  from plain unbinds the session and changes no message of any conversation.
\<close>

theorem C9_session_follows_active_conversation:
  assumes rs: "reachable gid s" and act: "activeConversation s = Some c"
  shows "chatSession s = (if mode c = CHAT then Some (sessionHistory c) else None)
       \<and> (chatSession s \<noteq> None) = (mode c = CHAT)
       \<and> sessionHistory c
           = map (\<lambda>msg. \<lparr>role_k = role msg,
                         parts = imageParts (images msg)
                                 @ (if text_m msg = [] then [] else [TextPart (text_m msg)])\<rparr>)
                 (tl (messages c))
       \<and> (m \<noteq> CHAT \<and> id_c c \<noteq> [] \<longrightarrow>
             chatSession (step gid (SetMode m) s) = None
           \<and> activeConversation (step gid (SetMode m) s) = Some (c\<lparr>mode := m\<rparr>)
           \<and> map messages (conversations (step gid (SetMode m) s))
               = map messages (conversations s))"
proof -
  have bound: "chatSession s = (if mode c = CHAT then Some (sessionHistory c) else None)"
    using rs act by (rule reachable_session_bound)
  have hist: "sessionHistory c
           = map (\<lambda>msg. \<lparr>role_k = role msg,
                         parts = imageParts (images msg)
                                 @ (if text_m msg = [] then [] else [TextPart (text_m msg)])\<rparr>)
                 (tl (messages c))"
    by (simp add: sessionHistory_def messageContent_def drop_Suc)
  have switch: "chatSession (step gid (SetMode m) s) = None
           \<and> activeConversation (step gid (SetMode m) s) = Some (c\<lparr>mode := m\<rparr>)
           \<and> map messages (conversations (step gid (SetMode m) s))
               = map messages (conversations s)"
    if m: "m \<noteq> CHAT" and ne: "id_c c \<noteq> []"
  proof -
    have a': "activeConversation (step gid (SetMode m) s) = Some (c\<lparr>mode := m\<rparr>)"
      by (simp add: step_def handleSetMode_active [OF act ne])
    have "reachable gid (step gid (SetMode m) s)"
      using rs by (rule reachable.stepped)
    from reachable_session_bound [OF this a'] m
    have "chatSession (step gid (SetMode m) s) = None"
      by simp
    with a' show ?thesis
      by (simp add: step_def handleSetMode_active [OF act ne])
  qed
  from bound hist switch show ?thesis
    by auto
qed

theorem C9_session_follows_active_conversation_witness:
  "reachable ''g'' imageOnlyChat
   \<and> chatSession imageOnlyChat
       = Some [\<lparr>role_k = USER, parts = [InlineData ''AAAA'' ''image/png'']\<rparr>]
   \<and> chatSession (step ''g'' (SetMode MAPS) imageOnlyChat) = None
   \<and> map messages (conversations (step ''g'' (SetMode MAPS) imageOnlyChat))
       = map messages (conversations imageOnlyChat)"
proof -
  have img: "imageParts (Some [pngImage]) = [InlineData ''AAAA'' ''image/png'']"
    by (simp add: imageParts_def imagePart_def pngImage_def lineTerminator_def)
  show ?thesis
    using reachable_imageOnlyChat
      C9_session_follows_active_conversation
        [OF reachable_imageOnlyChat imageOnlyChat_active, of MAPS]
    by (simp add: newConversation_def sessionHistory_def messageContent_def userMessage_def img)
qed

section \<open>Persistence round trip\<close>

lemma those_roundtrip:
  assumes "\<And>x. dec (enc x) = Some x"
  shows "those (map (dec \<circ> enc) xs) = Some xs"
  using assms by (induction xs) simp_all

lemma GroundingSource_roundtrip [simp]:
  "GroundingSource_of_json (json_of_GroundingSource g) = Some g"
  by (simp add: GroundingSource_of_json_def json_of_GroundingSource_def getProp_def
      required_def str_of_def)

lemma Role_roundtrip [simp]: "Role_of_json (json_of_Role r) = Some r"
  by (cases r) (simp_all add: Role_of_json_def json_of_Role_def)

lemma ChatMode_roundtrip [simp]: "ChatMode_of_json (json_of_ChatMode m) = Some m"
  by (cases m) (simp_all add: ChatMode_of_json_def json_of_ChatMode_def)

lemma Feedback_roundtrip [simp]: "Feedback_of_json (json_of_Feedback f) = Some f"
proof (cases f)
  case (Tag t)
  then show ?thesis
    by (cases t) (simp_all add: Feedback_of_json_def json_of_Feedback_def)
next
  case Null
  then show ?thesis
    by (simp add: Feedback_of_json_def json_of_Feedback_def)
qed

lemma str_roundtrip [simp]: "str_of (JStr x) = Some x"
  by (simp add: str_of_def)

lemma bool_roundtrip [simp]: "bool_of (JBool b) = Some b"
  by (simp add: bool_of_def)

lemma arr_roundtrip:
  assumes "\<And>x. dec (enc x) = Some x"
  shows "arr_of dec (JArr (map enc xs)) = Some xs"
  by (simp add: arr_of_def those_roundtrip assms)

lemma Message_roundtrip [simp]: "Message_of_json (json_of_Message m) = Some m"
proof -
  have src: "optional (arr_of GroundingSource_of_json)
               (getProp ''sources'' (json_of_Message m)) = Some (sources m)"
    by (cases "sources m"; cases "isPlaying m"; cases "images m"; cases "feedback m")
       (simp_all add: json_of_Message_def getProp_def optProp_def optional_def arr_roundtrip)
  have pl: "optional bool_of (getProp ''isPlaying'' (json_of_Message m)) = Some (isPlaying m)"
    by (cases "sources m"; cases "isPlaying m"; cases "images m"; cases "feedback m")
       (simp_all add: json_of_Message_def getProp_def optProp_def optional_def)
  have im: "optional (arr_of str_of) (getProp ''images'' (json_of_Message m)) = Some (images m)"
    by (cases "sources m"; cases "isPlaying m"; cases "images m"; cases "feedback m")
       (simp_all add: json_of_Message_def getProp_def optProp_def optional_def arr_roundtrip)
  have fb: "optional Feedback_of_json (getProp ''feedback'' (json_of_Message m)) = Some (feedback m)"
    by (cases "sources m"; cases "isPlaying m"; cases "images m"; cases "feedback m")
       (simp_all add: json_of_Message_def getProp_def optProp_def optional_def)
  have req: "required str_of (getProp ''id'' (json_of_Message m)) = Some (id_m m)"
    "required Role_of_json (getProp ''role'' (json_of_Message m)) = Some (role m)"
    "required str_of (getProp ''text'' (json_of_Message m)) = Some (text_m m)"
    by (simp_all add: json_of_Message_def getProp_def required_def)
  show ?thesis
    unfolding Message_of_json_def src pl im fb req by simp
qed

lemma Conversation_roundtrip [simp]:
  "Conversation_of_json (json_of_Conversation c) = Some c"
proof -
  have cx: "optional str_of (getProp ''context'' (json_of_Conversation c)) = Some (context_c c)"
    by (cases "context_c c")
       (simp_all add: json_of_Conversation_def getProp_def optProp_def optional_def)
  have req: "required str_of (getProp ''id'' (json_of_Conversation c)) = Some (id_c c)"
    "required str_of (getProp ''title'' (json_of_Conversation c)) = Some (title_c c)"
    "required (arr_of Message_of_json) (getProp ''messages'' (json_of_Conversation c))
       = Some (messages c)"
    "required ChatMode_of_json (getProp ''mode'' (json_of_Conversation c)) = Some (mode c)"
    by (simp_all add: json_of_Conversation_def getProp_def required_def arr_roundtrip)
  show ?thesis
    unfolding Conversation_of_json_def cx req by simp
qed

lemma loadHistory_saved:
  assumes "cs \<noteq> []"
  shows "loadHistory gid nid (saveHistory cs) s
           = Some (s\<lparr>conversations := cs, activeConversationId := Some (id_c (hd cs))\<rparr>)"
  using assms
  by (simp add: loadHistory_def saveHistory_def those_roundtrip hd_conv_nth)

lemma mount_saved:
  assumes "cs \<noteq> []"
  shows "mount gid nid (saveHistory cs)
           = Some (sessionEffect initialApp
                     (initialApp\<lparr>conversations := cs, activeConversationId := Some (id_c (hd cs))\<rparr>))"
  by (simp add: mount_def loadHistory_saved [OF assms])

lemma conversations_step: "conversations (step gid ev s) = conversations (handler gid ev s)"
  and activeConversationId_step:
    "activeConversationId (step gid ev s) = activeConversationId (handler gid ev s)"
  by (simp_all add: step_def)

lemma pickedOlder_list:
  "conversations pickedOlder = [newConversation ''g'' ''b'', newConversation ''g'' ''a'']"
  and pickedOlder_pointer: "activeConversationId pickedOlder = Some ''a''"
  by (simp_all add: pickedOlder_def conversations_step activeConversationId_step
      handleSelectConversation_def handleNewChat_def startChat_eq)

lemma reachable_pickedOlder: "reachable ''g'' pickedOlder"
  unfolding pickedOlder_def
  by (intro reachable.stepped reachable_startChat)

text \<open>
  C3, as stated: saving the list and running the startup load gives back the same
  active-conversation id. It fails in the reachable state in which the older of two
  conversations is selected: the active id is \<open>a\<close> before and \<open>b\<close>, the first of the
  list, after the reload.
\<close>

theorem C3_reload_forgets_selection:
  "reachable ''g'' pickedOlder
   \<and> conversations pickedOlder \<noteq> []
   \<and> activeConversationId pickedOlder = Some ''a''
   \<and> map_option activeConversationId (mount ''g'' ''n'' (saveHistory (conversations pickedOlder)))
       = Some (Some ''b'')
   \<and> map_option activeConversationId (mount ''g'' ''n'' (saveHistory (conversations pickedOlder)))
       \<noteq> Some (activeConversationId pickedOlder)"
proof -
  have ne: "conversations pickedOlder \<noteq> []"
    by (simp add: pickedOlder_list)
  show ?thesis
    using reachable_pickedOlder
    by (simp add: mount_saved [OF ne] pickedOlder_pointer)
       (simp add: pickedOlder_list id_c_newConversation)
qed

text \<open>
  C3, amended: for every state with a non-empty conversation list, saving the list and
  running the startup load yields a state with the same conversations in the same
  order, each with the same messages in the same order, in which the first conversation
  of the list is the active one (so the active id is the one before the reload exactly
  when that was the first conversation's id).
\<close>

theorem C3_reload_restores_list_and_activates_first:
  assumes "conversations s \<noteq> []"
  shows "\<exists>s'. mount gid nid (saveHistory (conversations s)) = Some s'
              \<and> conversations s' = conversations s
              \<and> map messages (conversations s') = map messages (conversations s)
              \<and> activeConversationId s' = Some (id_c (hd (conversations s)))
              \<and> activeConversation s' = Some (hd (conversations s))"
proof -
  from assms obtain c cs where cs: "conversations s = c # cs"
    by (cases "conversations s") auto
  show ?thesis
    by (simp add: mount_saved [OF assms]) (simp add: cs activeConversation_def)
qed

theorem C3_reload_restores_list_and_activates_first_witness:
  "conversations pickedOlder \<noteq> []
   \<and> (\<exists>s'. mount ''g'' ''n'' (saveHistory (conversations pickedOlder)) = Some s'
            \<and> conversations s' = [newConversation ''g'' ''b'', newConversation ''g'' ''a'']
            \<and> activeConversationId s' = Some ''b'')"
proof -
  have ne: "conversations pickedOlder \<noteq> []"
    by (simp add: pickedOlder_list)
  show ?thesis
    using ne C3_reload_restores_list_and_activates_first [OF ne, of "''g''" "''n''"]
    by (auto simp add: pickedOlder_list id_c_newConversation)
qed

end
